theory Spec2Isabelle
  imports Main "HOL-Library.Sublist" "HOL-Library.Product_Lexorder"
begin

section \<open>Python values, errors and string helpers\<close>

text \<open>
  The exceptions the program can raise: \<open>NotImplementedError\<close> is the unsupported-feature
  error of the compiler, \<open>IndexError\<close> comes from \<open>xs[0]\<close> on an empty list,
  \<open>TypeError\<close> from joining a list that holds \<open>None\<close> or from subscripting \<open>None\<close>,
  \<open>ValueError\<close> from \<open>datetime.strptime\<close>, \<open>EOFError\<close> from \<open>input\<close> at the end of the
  operator's input, \<open>FileNotFoundError\<close> from \<open>open\<close>, \<open>OperationalError\<close> from a
  statement the target database rejects.
\<close>

datatype error =
    NotImplementedError
  | IndexError
  | TypeError
  | ValueError
  | EOFError
  | FileNotFoundError
  | OperationalError

text \<open>The values a descriptor field read with \<open>dict.get\<close> may hold.\<close>

datatype pyval = PNone | PBool bool | PInt int | PStr string

text \<open>Python truthiness (\<open>if v\<close>, \<open>not v\<close>).\<close>

fun truthy :: "pyval \<Rightarrow> bool" where
  "truthy PNone = False"
| "truthy (PBool b) = b"
| "truthy (PInt i) = (i \<noteq> 0)"
| "truthy (PStr s) = (s \<noteq> [])"

text \<open>\<open>d.get(key)\<close>: an absent key reads as \<open>None\<close>.\<close>

fun dict_get :: "pyval option \<Rightarrow> pyval" where
  "dict_get None = PNone"
| "dict_get (Some v) = v"

text \<open>\<open>d.get(key, [])\<close> on a list-valued key.\<close>

fun get_list :: "'a list option \<Rightarrow> 'a list" where
  "get_list None = []"
| "get_list (Some xs) = xs"

definition digit_char :: "nat \<Rightarrow> char" where
  "digit_char d = ''0123456789'' ! d"

fun str_of_nat :: "nat \<Rightarrow> string" where
  "str_of_nat n = (if n < 10 then [digit_char n] else str_of_nat (n div 10) @ [digit_char (n mod 10)])"

definition str_of_int :: "int \<Rightarrow> string" where
  "str_of_int i = (if i < 0 then CHR ''-'' # str_of_nat (nat (- i)) else str_of_nat (nat i))"

text \<open>\<open>str(v)\<close>, as an f-string renders a value.\<close>

fun py_str :: "pyval \<Rightarrow> string" where
  "py_str PNone = ''None''"
| "py_str (PBool b) = (if b then ''True'' else ''False'')"
| "py_str (PInt i) = str_of_int i"
| "py_str (PStr s) = s"

definition nl :: string where
  "nl = [CHR 0x0A]"

text \<open>\<open>sep.join(xs)\<close> on a list of strings.\<close>

fun join :: "string \<Rightarrow> string list \<Rightarrow> string" where
  "join sep [] = []"
| "join sep [x] = x"
| "join sep (x # y # ys) = x @ sep @ join sep (y # ys)"

text \<open>
  A \<open>for\<close> loop that appends one statement per entry to \<open>sql_commands\<close> and stops at the
  first exception: \<open>body\<close> is the loop body, \<open>acc\<close> the statements collected so far.
\<close>

fun collect :: "('a \<Rightarrow> error + string) \<Rightarrow> 'a list \<Rightarrow> string list \<Rightarrow> error + string list" where
  "collect body [] acc = Inr acc"
| "collect body (d # ds) acc =
     (case body d of Inl e \<Rightarrow> Inl e | Inr s \<Rightarrow> collect body ds (acc @ [s]))"

section \<open>The difference model\<close>

text \<open>
  Every facet of the difference model is a dict with the optional keys \<open>left_only\<close>,
  \<open>right_only\<close> and \<open>diff\<close>; \<open>None\<close> is an absent key. A \<open>diff\<close> entry pairs the left and
  the right descriptor.
\<close>

record 'a diff_pair =
  left :: "'a option"
  right :: "'a option"

record 'a facet =
  left_only :: "'a list option"
  right_only :: "'a list option"
  diff :: "'a diff_pair list option"

text \<open>Truthiness of a facet dict: it holds at least one key.\<close>

definition facet_truthy :: "'a facet \<Rightarrow> bool" where
  "facet_truthy f = (left_only f \<noteq> None \<or> right_only f \<noteq> None \<or> diff f \<noteq> None)"

definition empty_facet :: "'a facet" where
  "empty_facet = \<lparr>left_only = None, right_only = None, diff = None\<rparr>"

text \<open>
  Column descriptors: \<open>name\<close> and \<open>type\<close> are read with \<open>field[...]\<close>, the other four with
  \<open>field.get(...)\<close>, so they may be absent.
\<close>

record column =
  col_name :: string
  col_type :: string
  nullable :: "pyval option"
  default :: "pyval option"
  autoincrement :: "pyval option"
  comment :: "pyval option"

record index_descr =
  idx_name :: string
  column_names :: "string list"
  unique :: bool

record foreign_key =
  fk_name :: string
  constrained_columns :: "string list"
  referred_table :: string
  referred_columns :: "string list"

section \<open>Foreign keys\<close>

text \<open>Body of the loop over \<open>right_fk\<close> in \<open>process_foreign_keys\<close>.\<close>

definition fk_drop :: "string \<Rightarrow> string \<Rightarrow> foreign_key \<Rightarrow> error + string" where
  "fk_drop db t d =
     (if length (referred_columns d) > 1 then Inl NotImplementedError
      else Inr (''ALTER TABLE '' @ db @ ''.'' @ t @ '' DROP FOREIGN KEY '' @ fk_name d @ '';''))"

text \<open>Body of the loop over \<open>left_fk\<close>, up to the statement it appends.\<close>

definition fk_add :: "string \<Rightarrow> string \<Rightarrow> foreign_key \<Rightarrow> error + string" where
  "fk_add db t d =
     (if length (constrained_columns d) > 1 then Inl NotImplementedError
      else (case constrained_columns d of
        [] \<Rightarrow> Inl IndexError
      | fk_field # _ \<Rightarrow>
          (if length (referred_columns d) > 1 then Inl NotImplementedError
           else (case referred_columns d of
             [] \<Rightarrow> Inl IndexError
           | ref_column # _ \<Rightarrow>
               Inr (''ALTER TABLE '' @ db @ ''.'' @ t @ '' ADD CONSTRAINT '' @ fk_name d
                    @ '' FOREIGN KEY ('' @ fk_field @ '') REFERENCES '' @ db @ ''.''
                    @ referred_table d @ ''('' @ ref_column @ '');'')))))"

text \<open>
  The loop over \<open>left_fk\<close>: the \<open>return\<close> stands inside the loop body, so the first entry
  ends the function; with no entry the function falls off its end and returns \<open>None\<close>.
\<close>

fun fk_add_loop :: "string \<Rightarrow> string \<Rightarrow> foreign_key list \<Rightarrow> string list \<Rightarrow> error + string option" where
  "fk_add_loop db t [] acc = Inr None"
| "fk_add_loop db t (d # ds) acc =
     (case fk_add db t d of
        Inl e \<Rightarrow> Inl e
      | Inr s \<Rightarrow> Inr (Some (join nl (acc @ [s]))))"

definition process_foreign_keys :: "string \<Rightarrow> foreign_key facet \<Rightarrow> string \<Rightarrow> error + string option" where
  "process_foreign_keys db foreign_keys table_name =
     (let right_fk = get_list (right_only foreign_keys);
          left_fk = get_list (left_only foreign_keys)
      in case collect (fk_drop db table_name) right_fk [] of
           Inl e \<Rightarrow> Inl e
         | Inr sql_commands \<Rightarrow> fk_add_loop db table_name left_fk sql_commands)"

section \<open>Indexes\<close>

definition index_drop :: "string \<Rightarrow> string \<Rightarrow> index_descr \<Rightarrow> error + string" where
  "index_drop db t d =
     (if length (column_names d) > 1 then Inl NotImplementedError
      else Inr (''DROP INDEX '' @ idx_name d @ '' ON '' @ db @ ''.'' @ t @ '';''))"

definition index_create :: "string \<Rightarrow> string \<Rightarrow> index_descr \<Rightarrow> error + string" where
  "index_create db t d =
     (if length (column_names d) > 1 then Inl NotImplementedError
      else (case column_names d of
        [] \<Rightarrow> Inl IndexError
      | field_name # _ \<Rightarrow>
          Inr (''CREATE '' @ (if unique d then ''UNIQUE'' else []) @ '' INDEX '' @ idx_name d
               @ '' ON '' @ db @ ''.'' @ t @ ''('' @ field_name @ '');'')))"

definition process_index_change :: "string \<Rightarrow> index_descr facet \<Rightarrow> string \<Rightarrow> error + string" where
  "process_index_change db indexes table_name =
     (let right_indexes = get_list (right_only indexes);
          left_indexes = get_list (left_only indexes)
      in case collect (index_drop db table_name) right_indexes [] of
           Inl e \<Rightarrow> Inl e
         | Inr sql_commands \<Rightarrow>
             (case collect (index_create db table_name) left_indexes sql_commands of
                Inl e \<Rightarrow> Inl e
              | Inr sql_commands' \<Rightarrow> Inr (join nl sql_commands')))"

section \<open>Primary keys\<close>

definition process_primary_keys :: "string \<Rightarrow> string facet \<Rightarrow> string \<Rightarrow> string" where
  "process_primary_keys db primary_keys table_name =
     (let right_pk = get_list (right_only primary_keys)
      in join nl (map (\<lambda>pkey. ''ALTER TABLE '' @ db @ ''.'' @ table_name @ '' DROP PRIMARY KEY;'') right_pk))"

section \<open>Columns\<close>

definition apostrophe :: string where
  "apostrophe = [CHR 0x27]"

definition alter_table_writer :: "string \<Rightarrow> string \<Rightarrow> column \<Rightarrow> string \<Rightarrow> bool \<Rightarrow> string" where
  "alter_table_writer db table_name left_field col_action pk =
     (let col_def0 = ''ALTER TABLE '' @ db @ ''.'' @ table_name;
          col_def1 = col_def0 @ '' '' @ col_action @ '' COLUMN '' @ col_name left_field @ '' ''
                       @ col_type left_field;
          col_def2 = col_def1 @ (if pk then '' PRIMARY KEY'' else []);
          col_def3 = col_def2 @ (if truthy (dict_get (autoincrement left_field))
                                 then '' AUTO_INCREMENT'' else []);
          col_def4 = col_def3 @ (if \<not> truthy (dict_get (nullable left_field))
                                 then '' NOT NULL'' else []);
          col_def5 = col_def4 @ (if dict_get (default left_field) \<noteq> PNone
                                 then '' DEFAULT '' @ py_str (dict_get (default left_field)) else []);
          col_def6 = col_def5 @ (if truthy (dict_get (comment left_field))
                                 then '' COMMENT '' @ apostrophe @ py_str (dict_get (comment left_field))
                                        @ apostrophe
                                 else [])
      in col_def6 @ '';'')"

text \<open>
  The inner loop of both column handlers: \<open>pk\<close> starts as \<open>False\<close> and is set when an entry of
  \<open>left_primary_keys\<close> equals the field's name.
\<close>

definition pk_flag :: "string list \<Rightarrow> string \<Rightarrow> bool" where
  "pk_flag left_primary_keys nm =
     fold (\<lambda>primary_key pk. if primary_key = nm then True else pk) left_primary_keys False"

definition process_diff_columns_change :: "string \<Rightarrow> column list \<Rightarrow> string list \<Rightarrow> string \<Rightarrow> string" where
  "process_diff_columns_change db left_only_cols left_primary_keys table_name =
     join nl (map (\<lambda>field. alter_table_writer db table_name field ''ADD''
                               (pk_flag left_primary_keys (col_name field))) left_only_cols)"

text \<open>
  Body of the loop of \<open>process_same_columns_change\<close>: \<open>field.get("left")\<close> is \<open>None\<close> for a pair
  without a left descriptor, and subscripting it raises.
\<close>

definition modify_stmt :: "string \<Rightarrow> string list \<Rightarrow> string \<Rightarrow> column diff_pair \<Rightarrow> error + string" where
  "modify_stmt db left_primary_keys table_name field =
     (case left field of
        None \<Rightarrow> Inl TypeError
      | Some left_field \<Rightarrow>
          Inr (alter_table_writer db table_name left_field ''MODIFY''
                 (pk_flag left_primary_keys (col_name left_field))))"

definition process_same_columns_change ::
  "string \<Rightarrow> column diff_pair list \<Rightarrow> string list \<Rightarrow> string \<Rightarrow> error + string" where
  "process_same_columns_change db differences left_primary_keys table_name =
     (case collect (modify_stmt db left_primary_keys table_name) differences [] of
        Inl e \<Rightarrow> Inl e
      | Inr sql_commands \<Rightarrow> Inr (join nl sql_commands))"

definition drop_column_stmt :: "string \<Rightarrow> string \<Rightarrow> column \<Rightarrow> string" where
  "drop_column_stmt db table_name col =
     ''ALTER TABLE '' @ db @ ''.'' @ table_name @ '' DROP COLUMN '' @ col_name col @ '';''"

definition process_column_change ::
  "string \<Rightarrow> column facet \<Rightarrow> string facet \<Rightarrow> string \<Rightarrow> error + string" where
  "process_column_change db cols pks table_name =
     (let sql_commands = map (drop_column_stmt db table_name) (get_list (right_only cols));
          left_primary_keys = get_list (left_only pks);
          sql_commands1 = sql_commands
             @ [process_diff_columns_change db (get_list (left_only cols)) left_primary_keys table_name]
      in case process_same_columns_change db (get_list (diff cols)) left_primary_keys table_name of
           Inl e \<Rightarrow> Inl e
         | Inr modified \<Rightarrow> Inr (join nl (sql_commands1 @ [modified])))"

section \<open>Per-table changes\<close>

text \<open>
  The value of one table in \<open>tables_data\<close>: each facet key may be absent. \<open>changes.get(key, {})\<close>
  reads an absent key as the empty dict.
\<close>

record table_changes =
  columns :: "column facet option"
  indexes :: "index_descr facet option"
  primary_keys :: "string facet option"
  foreign_keys :: "foreign_key facet option"

fun get_facet :: "'a facet option \<Rightarrow> 'a facet" where
  "get_facet None = empty_facet"
| "get_facet (Some f) = f"

text \<open>
  The four guarded appends of one round of the loop of \<open>process_tables_change\<close>. The
  foreign-key handler's result is appended as it is, \<open>None\<close> included.
\<close>

definition columns_part :: "string \<Rightarrow> string \<Rightarrow> table_changes \<Rightarrow> error + string option list" where
  "columns_part db table_name changes =
     (if facet_truthy (get_facet (columns changes))
      then (case process_column_change db (get_facet (columns changes))
                   (get_facet (primary_keys changes)) table_name of
              Inl e \<Rightarrow> Inl e
            | Inr s \<Rightarrow> Inr [Some s])
      else Inr [])"

definition indexes_part :: "string \<Rightarrow> string \<Rightarrow> table_changes \<Rightarrow> error + string option list" where
  "indexes_part db table_name changes =
     (if facet_truthy (get_facet (indexes changes))
      then (case process_index_change db (get_facet (indexes changes)) table_name of
              Inl e \<Rightarrow> Inl e
            | Inr s \<Rightarrow> Inr [Some s])
      else Inr [])"

definition primary_keys_part :: "string \<Rightarrow> string \<Rightarrow> table_changes \<Rightarrow> string option list" where
  "primary_keys_part db table_name changes =
     (if facet_truthy (get_facet (primary_keys changes))
      then [Some (process_primary_keys db (get_facet (primary_keys changes)) table_name)]
      else [])"

definition foreign_keys_part :: "string \<Rightarrow> string \<Rightarrow> table_changes \<Rightarrow> error + string option list" where
  "foreign_keys_part db table_name changes =
     (if facet_truthy (get_facet (foreign_keys changes))
      then (case process_foreign_keys db (get_facet (foreign_keys changes)) table_name of
              Inl e \<Rightarrow> Inl e
            | Inr r \<Rightarrow> Inr [r])
      else Inr [])"

definition table_commands :: "string \<Rightarrow> string \<Rightarrow> table_changes \<Rightarrow> error + string option list" where
  "table_commands db table_name changes =
     (case columns_part db table_name changes of
        Inl e \<Rightarrow> Inl e
      | Inr c1 \<Rightarrow>
          (case indexes_part db table_name changes of
             Inl e \<Rightarrow> Inl e
           | Inr c2 \<Rightarrow>
               (let c3 = primary_keys_part db table_name changes
                in case foreign_keys_part db table_name changes of
                     Inl e \<Rightarrow> Inl e
                   | Inr c4 \<Rightarrow> Inr (c1 @ c2 @ c3 @ c4))))"

fun tables_loop ::
  "string \<Rightarrow> (string \<times> table_changes) list \<Rightarrow> string option list \<Rightarrow> error + string option list" where
  "tables_loop db [] acc = Inr acc"
| "tables_loop db ((table_name, changes) # rest) acc =
     (case table_commands db table_name changes of
        Inl e \<Rightarrow> Inl e
      | Inr cs \<Rightarrow> tables_loop db rest (acc @ cs))"

text \<open>\<open>"\n".join(xs)\<close> on a list that may hold \<open>None\<close>: a \<open>None\<close> entry raises \<open>TypeError\<close>.\<close>

definition join_checked :: "string option list \<Rightarrow> error + string" where
  "join_checked xs = (case those xs of None \<Rightarrow> Inl TypeError | Some ys \<Rightarrow> Inr (join nl ys))"

definition process_tables_change :: "string \<Rightarrow> (string \<times> table_changes) list \<Rightarrow> error + string" where
  "process_tables_change db diff_tables =
     (case tables_loop db diff_tables [] of
        Inl e \<Rightarrow> Inl e
      | Inr sql_commands \<Rightarrow> join_checked sql_commands)"

section \<open>Table creation and removal\<close>

text \<open>A row of \<open>DESCRIBE\<close>: name, type, nullable, key, default, extra.\<close>

type_synonym describe_row = "string \<times> string \<times> string \<times> string \<times> string option \<times> string"

fun column_def :: "describe_row \<Rightarrow> string" where
  "column_def (cname, ctype, cnullable, key, cdefault, extra) =
     (let col_def0 = cname @ '' '' @ ctype;
          col_def1 = col_def0 @ (if cnullable = ''NO'' then '' NOT NULL'' else []);
          col_def2 = (if key \<noteq> []
                      then (let k1 = col_def1 @ (if key = ''PRI'' then '' PRIMARY KEY'' else [])
                            in k1 @ (if key = ''UNI'' then '' UNIQUE'' else []))
                      else col_def1);
          col_def3 = col_def2 @ (case cdefault of
                                   None \<Rightarrow> []
                                 | Some d \<Rightarrow> '' DEFAULT '' @ apostrophe @ d @ apostrophe)
      in col_def3 @ (if extra \<noteq> [] then '' '' @ extra else []))"

definition create_table_script :: "string \<Rightarrow> string \<Rightarrow> describe_row list \<Rightarrow> string" where
  "create_table_script db table_name cols =
     ''CREATE TABLE '' @ db @ ''.'' @ table_name @ '' ('' @ join '', '' (map column_def cols) @ '');''"

text \<open>\<open>tables_info[table].append(row)\<close> on a \<open>defaultdict(list)\<close>, keys in insertion order.\<close>

fun dict_append :: "('k \<times> 'v list) list \<Rightarrow> 'k \<Rightarrow> 'v \<Rightarrow> ('k \<times> 'v list) list" where
  "dict_append [] k v = [(k, [v])]"
| "dict_append ((k', vs) # rest) k v =
     (if k' = k then (k', vs @ [v]) # rest else (k', vs) # dict_append rest k v)"

text \<open>\<open>describe\<close> is the answer of the reference database to \<open>DESCRIBE table\<close>.\<close>

definition read_db_schema ::
  "(string \<Rightarrow> describe_row list) \<Rightarrow> string list \<Rightarrow> (string \<times> describe_row list) list" where
  "read_db_schema describe tables_to_add =
     fold (\<lambda>table info. fold (\<lambda>row info'. dict_append info' table row) (describe table) info)
          tables_to_add []"

definition create_tables_ddl :: "string \<Rightarrow> (string \<times> describe_row list) list \<Rightarrow> string" where
  "create_tables_ddl db tables_info =
     join nl (map (\<lambda>(table, info). create_table_script db table info) tables_info)"

definition drop_table_stmt :: "string \<Rightarrow> string \<Rightarrow> string" where
  "drop_table_stmt db table = ''DROP table '' @ db @ ''.'' @ table @ '';''"

definition process_schema_change ::
  "string \<Rightarrow> (string \<Rightarrow> describe_row list) \<Rightarrow> string facet \<Rightarrow> string" where
  "process_schema_change db describe tbls =
     (let tables_to_add = get_list (left_only tbls);
          tables_to_remove = get_list (right_only tbls);
          migration_ddl = (if tables_to_add \<noteq> []
                           then [create_tables_ddl db (read_db_schema describe tables_to_add)]
                           else []);
          migration_ddl1 = migration_ddl @
                          (if tables_to_remove \<noteq> []
                           then [join nl (map (drop_table_stmt db) tables_to_remove)]
                           else [])
      in join nl migration_ddl1)"

section \<open>Migration files\<close>

text \<open>
  A Python \<open>str\<close> whose characters matter one by one (a file name, an answer of the
  operator) is the list of its code points; \<open>ustr\<close> gives the code points of a text written
  in the file.
\<close>

type_synonym ustring = "nat list"

definition ustr :: "string \<Rightarrow> ustring" where
  "ustr s = map of_char s"

text \<open>
  The working directory is an association list from file name to content, in the order
  \<open>os.listdir\<close> reports the entries. A content is the text as it stands in the file.
  \<open>main\<close> sets \<open>migration_file\<close> to the working directory joined with the prefix, so every
  artifact is an entry of the working directory, the directory that
  \<open>find_latest_migration_file\<close> lists.
\<close>

type_synonym directory = "(ustring \<times> string) list"

fun write_file :: "directory \<Rightarrow> ustring \<Rightarrow> string \<Rightarrow> directory" where
  "write_file [] name content = [(name, content)]"
| "write_file ((n, c) # rest) name content =
     (if n = name then (n, content) # rest else (n, c) # write_file rest name content)"

definition DEFAULT_MIGRATION_FILE_PREFIX :: string where
  "DEFAULT_MIGRATION_FILE_PREFIX = ''migration_''"

text \<open>
  Reading in text mode (\<open>open(path, "r")\<close>, universal newlines): a carriage return followed
  by a newline, and a carriage return alone, are delivered as one newline.
\<close>

fun universal_newlines :: "string \<Rightarrow> string" where
  "universal_newlines [] = []"
| "universal_newlines [c] = (if c = CHR 0x0D then [CHR 0x0A] else [c])"
| "universal_newlines (c # c' # cs) =
     (if c = CHR 0x0D
      then (if c' = CHR 0x0A then CHR 0x0A # universal_newlines cs
            else CHR 0x0A # universal_newlines (c' # cs))
      else c # universal_newlines (c' # cs))"

text \<open>\<open>file.readlines()\<close>: every line keeps its newline; \<open>cur\<close> is the line being read.\<close>

fun readlines :: "string \<Rightarrow> string \<Rightarrow> string list" where
  "readlines [] cur = (if cur = [] then [] else [cur])"
| "readlines (c # cs) cur =
     (if c = CHR 0x0A then (cur @ [c]) # readlines cs [] else readlines cs (cur @ [c]))"

definition read_migration :: "directory \<Rightarrow> ustring \<Rightarrow> error + string list" where
  "read_migration dir migration_file_path =
     (case map_of dir migration_file_path of
        None \<Rightarrow> Inl FileNotFoundError
      | Some content \<Rightarrow>
          Inr (map (filter (\<lambda>c. c \<noteq> CHR 0x0A)) (readlines (universal_newlines content) [])))"

subsection \<open>Discovery of the latest file\<close>

text \<open>
  \<open>\d\<close> in a pattern on \<open>str\<close> matches every Unicode decimal digit, and \<open>int\<close> reads every
  such digit with its decimal value. Below code point 128 the decimal digits are \<open>0\<close> to
  \<open>9\<close>; for the other code points the table of the Unicode database is the parameter
  \<open>dec\<close>, which gives the decimal value of a decimal digit and \<open>None\<close> for any other
  character.
\<close>

definition digit_value :: "(nat \<Rightarrow> nat option) \<Rightarrow> nat \<Rightarrow> nat option" where
  "digit_value dec c =
     (if c < 128 then (if 48 \<le> c \<and> c \<le> 57 then Some (c - 48) else None)
      else (case dec c of None \<Rightarrow> None | Some v \<Rightarrow> (if v < 10 then Some v else None)))"

definition is_digit :: "(nat \<Rightarrow> nat option) \<Rightarrow> nat \<Rightarrow> bool" where
  "is_digit dec c = (digit_value dec c \<noteq> None)"

text \<open>
  The group of the pattern, \<open>\d{4}-\d{2}-\d{2}-\d{2}-\d{2}\<close>, as a shape: \<open>d\<close> stands for a
  digit, any other character for itself.
\<close>

definition stamp_shape :: string where
  "stamp_shape = ''dddd-dd-dd-dd-dd''"

definition fits :: "(nat \<Rightarrow> nat option) \<Rightarrow> nat \<Rightarrow> char \<Rightarrow> bool" where
  "fits dec c p = (if p = CHR ''d'' then is_digit dec c else c = of_char p)"

text \<open>
  \<open>pattern.match(file)\<close>: the pattern is anchored at the start of the name only; the result
  is \<open>match.group(1)\<close>.
\<close>

definition match_name :: "(nat \<Rightarrow> nat option) \<Rightarrow> ustring \<Rightarrow> ustring option" where
  "match_name dec file =
     (let n = length DEFAULT_MIGRATION_FILE_PREFIX;
          g = take (length stamp_shape) (drop n file)
      in if take n file = ustr DEFAULT_MIGRATION_FILE_PREFIX \<and> list_all2 (fits dec) g stamp_shape
         then Some g else None)"

type_synonym stamp = "nat \<times> nat \<times> nat \<times> nat \<times> nat"

text \<open>\<open>int(s)\<close> on a string of decimal digits.\<close>

definition num :: "(nat \<Rightarrow> nat option) \<Rightarrow> ustring \<Rightarrow> nat" where
  "num dec s =
     fold (\<lambda>c n. 10 * n + (case digit_value dec c of None \<Rightarrow> 0 | Some v \<Rightarrow> v)) s 0"

definition is_leap :: "nat \<Rightarrow> bool" where
  "is_leap y = (y mod 4 = 0 \<and> (y mod 100 \<noteq> 0 \<or> y mod 400 = 0))"

definition days_in_month :: "nat \<Rightarrow> nat \<Rightarrow> nat" where
  "days_in_month y m =
     (if m = 2 then (if is_leap y then 29 else 28)
      else if m = 4 \<or> m = 6 \<or> m = 9 \<or> m = 11 then 30 else 31)"

text \<open>
  The character class \<open>[a-b]\<close> of two ASCII digits, and the patterns of the library's
  \<open>_strptime\<close> for a field of two characters that a dash or the end of the text follows:
  \<open>%m\<close> is \<open>1[0-2]|0[1-9]|[1-9]\<close>, \<open>%d\<close> is \<open>3[0-1]|[1-2]\d|0[1-9]|[1-9]| [1-9]\<close>, \<open>%H\<close> is
  \<open>2[0-3]|[0-1]\d|\d\<close>, \<open>%M\<close> is \<open>[0-5]\d|\d\<close>. An alternative of one character cannot
  match a field of two digits: a digit stands where the dash or the end is required.
\<close>

definition in_class :: "nat \<Rightarrow> nat \<Rightarrow> nat \<Rightarrow> bool" where
  "in_class a b c = (48 + a \<le> c \<and> c \<le> 48 + b)"

definition month_field :: "nat \<Rightarrow> nat \<Rightarrow> bool" where
  "month_field c1 c2 = (c1 = 49 \<and> in_class 0 2 c2 \<or> c1 = 48 \<and> in_class 1 9 c2)"

definition day_field :: "(nat \<Rightarrow> nat option) \<Rightarrow> nat \<Rightarrow> nat \<Rightarrow> bool" where
  "day_field dec c1 c2 =
     (c1 = 51 \<and> in_class 0 1 c2 \<or> in_class 1 2 c1 \<and> is_digit dec c2 \<or> c1 = 48 \<and> in_class 1 9 c2)"

definition hour_field :: "(nat \<Rightarrow> nat option) \<Rightarrow> nat \<Rightarrow> nat \<Rightarrow> bool" where
  "hour_field dec c1 c2 = (c1 = 50 \<and> in_class 0 3 c2 \<or> in_class 0 1 c1 \<and> is_digit dec c2)"

definition minute_field :: "(nat \<Rightarrow> nat option) \<Rightarrow> nat \<Rightarrow> nat \<Rightarrow> bool" where
  "minute_field dec c1 c2 = (in_class 0 5 c1 \<and> is_digit dec c2)"

text \<open>
  \<open>datetime.strptime(g, "%Y-%m-%d-%H-%M")\<close> on the group of a match, the only text it is
  called on: the text must match the format's pattern as a whole, the year must not be 0 and
  the day must be a day of the month, else \<open>ValueError\<close>. The result stands for the
  \<open>datetime\<close> object; the order of two results is the lexicographic order of the fields,
  which is the order of time.
\<close>

definition strptime :: "(nat \<Rightarrow> nat option) \<Rightarrow> ustring \<Rightarrow> error + stamp" where
  "strptime dec g =
     (let y = num dec (take 4 g);
          m = num dec (take 2 (drop 5 g));
          d = num dec (take 2 (drop 8 g));
          h = num dec (take 2 (drop 11 g));
          mi = num dec (take 2 (drop 14 g))
      in if list_all2 (fits dec) g stamp_shape
            \<and> month_field (g ! 5) (g ! 6) \<and> day_field dec (g ! 8) (g ! 9)
            \<and> hour_field dec (g ! 11) (g ! 12) \<and> minute_field dec (g ! 14) (g ! 15)
            \<and> 1 \<le> y \<and> d \<le> days_in_month y m
         then Inr (y, m, d, h, mi) else Inl ValueError)"

fun find_latest_loop ::
  "(nat \<Rightarrow> nat option) \<Rightarrow> ustring list \<Rightarrow> stamp option \<Rightarrow> ustring option
   \<Rightarrow> error + ustring option" where
  "find_latest_loop dec [] latest_time latest_file = Inr latest_file"
| "find_latest_loop dec (file # rest) latest_time latest_file =
     (case match_name dec file of
        None \<Rightarrow> find_latest_loop dec rest latest_time latest_file
      | Some g \<Rightarrow>
          (case strptime dec g of
             Inl e \<Rightarrow> Inl e
           | Inr file_time \<Rightarrow>
               (if (case latest_time of None \<Rightarrow> True | Some lt \<Rightarrow> file_time > lt)
                then find_latest_loop dec rest (Some file_time) (Some file)
                else find_latest_loop dec rest latest_time latest_file)))"

definition find_latest_migration_file :: "(nat \<Rightarrow> nat option) \<Rightarrow> ustring list \<Rightarrow> error + ustring option" where
  "find_latest_migration_file dec listing = find_latest_loop dec listing None None"

section \<open>Comparison and application\<close>

text \<open>
  What \<open>get_differences\<close> returns when the schemas do not match: the dict \<open>result.errors\<close>
  with its keys \<open>tables\<close> and \<open>tables_data\<close>.
\<close>

record diff_model =
  tables :: "string facet"
  tables_data :: "(string \<times> table_changes) list"

text \<open>What the program reports to the operator.\<close>

datatype message =
    Identical
  | Created string
  | Separator
  | Prompt ustring
  | NextPrompt ustring
  | NothingApplied

text \<open>
  The collaborators of a run: the target schema's name, the reference database's answer to
  \<open>DESCRIBE\<close>, the result of \<open>get_differences\<close> as a function of the statements the target
  database has executed (\<open>None\<close> when the schemas match, the case \<open>not diff\<close>), the clock's
  \<open>strftime("%Y-%m-%d-%H-%M")\<close> at each write, \<open>str.lower\<close>, the statements the target
  database rejects, and the decimal digits of the Unicode database beyond code point 127.
\<close>

record env =
  right_db_name :: string
  describe :: "string \<Rightarrow> describe_row list"
  compare :: "string list \<Rightarrow> diff_model option"
  now :: "nat \<Rightarrow> string"
  lower :: "ustring \<Rightarrow> ustring"
  rejects :: "string \<Rightarrow> bool"
  unicode_decimal :: "nat \<Rightarrow> nat option"

record state =
  files :: directory
  executed :: "string list"
  printed :: "message list"
  ticks :: nat

definition create_migration_file :: "env \<Rightarrow> string list \<Rightarrow> state \<Rightarrow> state" where
  "create_migration_file ev migration_ddl st =
     (let name = ustr (DEFAULT_MIGRATION_FILE_PREFIX @ now ev (ticks st))
      in st\<lparr>files := write_file (files st) name (join nl migration_ddl), ticks := Suc (ticks st)\<rparr>)"

definition compare_schemas :: "env \<Rightarrow> state \<Rightarrow> state \<times> (error + bool)" where
  "compare_schemas ev st =
     (case compare ev (executed st) of
        None \<Rightarrow> (st\<lparr>printed := printed st @ [Identical]\<rparr>, Inr False)
      | Some d \<Rightarrow>
          (let schema_changed = tables d;
               columns_changed = tables_data d;
               ddl1 = (if facet_truthy schema_changed
                       then [process_schema_change (right_db_name ev) (describe ev) schema_changed]
                       else [])
           in case (if columns_changed \<noteq> []
                    then (case process_tables_change (right_db_name ev) columns_changed of
                            Inl e \<Rightarrow> Inl e
                          | Inr s \<Rightarrow> Inr [s])
                    else Inr []) of
                Inl e \<Rightarrow> (st, Inl e)
              | Inr ddl2 \<Rightarrow>
                  (let migration_ddl = ddl1 @ ddl2;
                       need_second_run = (facet_truthy schema_changed \<or> columns_changed \<noteq> []);
                       st1 = st\<lparr>printed := printed st @ [Created (join nl migration_ddl)]\<rparr>
                   in (create_migration_file ev migration_ddl st1, Inr need_second_run))))"

text \<open>
  The loop over the lines of the artifact in \<open>apply_migrations\<close>: an empty line is skipped, a
  rejected statement raises and ends the loop; \<open>log\<close> is what the database has executed.
\<close>

fun execute_all :: "(string \<Rightarrow> bool) \<Rightarrow> string list \<Rightarrow> string list \<Rightarrow> string list \<times> (error + unit)" where
  "execute_all rej [] log = (log, Inr ())"
| "execute_all rej (script # rest) log =
     (if script \<noteq> []
      then (if rej script then (log, Inl OperationalError)
            else execute_all rej rest (log @ [script]))
      else execute_all rej rest log)"

definition affirmative :: "env \<Rightarrow> ustring \<Rightarrow> bool" where
  "affirmative ev answer = (lower ev answer \<in> {[121], [1076]})"

text \<open>
  \<open>apply_migrations\<close>: \<open>next_message\<close> says whether the call is a repeat round, \<open>answers\<close> is
  what the operator will type, one entry for each \<open>input\<close>.
\<close>

fun apply_migrations :: "env \<Rightarrow> bool \<Rightarrow> ustring list \<Rightarrow> state \<Rightarrow> state \<times> (error + unit)" where
  "apply_migrations ev next_message answers st =
     (case find_latest_migration_file (unicode_decimal ev) (map fst (files st)) of
        Inl e \<Rightarrow> (st, Inl e)
      | Inr None \<Rightarrow> (st\<lparr>printed := printed st @ [NothingApplied]\<rparr>, Inr ())
      | Inr (Some last_migration) \<Rightarrow>
          (if last_migration = []
           then (st\<lparr>printed := printed st @ [NothingApplied]\<rparr>, Inr ())
           else
             (let st1 = st\<lparr>printed := printed st @
                          (if next_message then [Separator, NextPrompt last_migration]
                           else [Prompt last_migration])\<rparr>
              in case answers of
                   [] \<Rightarrow> (st1, Inl EOFError)
                 | answer # later \<Rightarrow>
                     (if affirmative ev answer
                      then (case read_migration (files st1) last_migration of
                              Inl e \<Rightarrow> (st1, Inl e)
                            | Inr migration_script \<Rightarrow>
                                (case execute_all (rejects ev) migration_script (executed st1) of
                                   (log, Inl e) \<Rightarrow> (st1\<lparr>executed := log\<rparr>, Inl e)
                                 | (log, Inr u) \<Rightarrow>
                                     (case compare_schemas ev (st1\<lparr>executed := log\<rparr>) of
                                        (st2, Inl e) \<Rightarrow> (st2, Inl e)
                                      | (st2, Inr second_run) \<Rightarrow>
                                          (if second_run then apply_migrations ev True later st2
                                           else (st2, Inr ())))))
                      else (st1\<lparr>printed := printed st1 @ [NothingApplied]\<rparr>, Inr ())))))"

definition main_run :: "env \<Rightarrow> ustring list \<Rightarrow> state \<Rightarrow> state \<times> (error + unit)" where
  "main_run ev answers st =
     (case compare_schemas ev st of
        (st1, Inl e) \<Rightarrow> (st1, Inl e)
      | (st1, Inr need) \<Rightarrow> (if need then apply_migrations ev False answers st1 else (st1, Inr ())))"

section \<open>Reference definitions\<close>

text \<open>
  The foreign-key handler as the specification words it, to be compared with
  \<open>process_foreign_keys\<close>: one \<open>DROP FOREIGN KEY\<close> for each \<open>right_only\<close> entry, followed
  by one \<open>ADD CONSTRAINT\<close> for each \<open>left_only\<close> entry, every descriptor checked and all
  statements collected before the handler returns.
\<close>

definition process_foreign_keys_spec :: "string \<Rightarrow> foreign_key facet \<Rightarrow> string \<Rightarrow> error + string" where
  "process_foreign_keys_spec db fks table_name =
     (case collect (fk_drop db table_name) (get_list (right_only fks)) [] of
        Inl e \<Rightarrow> Inl e
      | Inr drops \<Rightarrow>
          (case collect (fk_add db table_name) (get_list (left_only fks)) drops of
             Inl e \<Rightarrow> Inl e
           | Inr all_commands \<Rightarrow> Inr (join nl all_commands)))"

text \<open>
  \<open>str.lower\<close> on the Latin and the basic Cyrillic capitals; every other code point is
  left as it is. It stands for \<open>lower\<close> where a concrete run is evaluated.
\<close>

definition lower_basic :: "ustring \<Rightarrow> ustring" where
  "lower_basic s =
     map (\<lambda>c. if (65 \<le> c \<and> c \<le> 90) \<or> (1040 \<le> c \<and> c \<le> 1071) then c + 32 else c) s"

text \<open>
  The fullwidth digits, code points 65296 to 65305, one block of decimal digits of the
  Unicode database. It stands for \<open>unicode_decimal\<close> where a concrete run is evaluated.
\<close>

definition fullwidth_decimal :: "nat \<Rightarrow> nat option" where
  "fullwidth_decimal c = (if 65296 \<le> c \<and> c \<le> 65305 then Some (c - 65296) else None)"

section \<open>The statement-collecting loop\<close>

lemma collect_acc:
  "collect body ds acc = (case collect body ds [] of Inl e \<Rightarrow> Inl e | Inr xs \<Rightarrow> Inr (acc @ xs))"
proof (induction ds arbitrary: acc)
  case Nil
  then show ?case by simp
next
  case (Cons d ds)
  show ?case
  proof (cases "body d")
    case (Inl e)
    then show ?thesis by simp
  next
    case (Inr s)
    then show ?thesis
      using Cons.IH[of "acc @ [s]"] Cons.IH[of "[s]"] by (simp split: sum.splits)
  qed
qed

lemma collect_ok:
  "(\<forall>d\<in>set ds. \<exists>s. body d = Inr s) \<Longrightarrow>
   collect body ds acc = Inr (acc @ map (\<lambda>d. projr (body d)) ds)"
  by (induction ds arbitrary: acc) auto

lemma collect_stops:
  "(\<forall>x\<in>set pre. \<exists>s. body x = Inr s) \<Longrightarrow> body d = Inl e \<Longrightarrow>
   collect body (pre @ d # post) acc = Inl e"
  by (induction pre arbitrary: acc) auto

lemma collect_Inr_all:
  "collect body ds acc = Inr out \<Longrightarrow> (\<forall>d\<in>set ds. \<exists>s. body d = Inr s)"
  by (induction ds arbitrary: acc) (auto split: sum.splits)

lemma collect_Inr_value:
  "collect body ds acc = Inr out \<Longrightarrow> out = acc @ map (\<lambda>d. projr (body d)) ds"
  using collect_Inr_all[of body ds acc out] collect_ok[of ds body acc] by simp

lemma collect_member_fails:
  "d \<in> set ds \<Longrightarrow> body d = Inl e \<Longrightarrow> \<exists>e'. collect body ds acc = Inl e'"
  using collect_Inr_all[of body ds acc] by (cases "collect body ds acc") auto

section \<open>Foreign-key handler\<close>

text \<open>
  Claim C1. The claim: the foreign-key handler returns one \<open>DROP FOREIGN KEY\<close> for each
  \<open>right_only\<close> entry followed by one \<open>ADD CONSTRAINT\<close> for each \<open>left_only\<close> entry, the
  list is not cut after the first addition, and the drops are returned when \<open>left_only\<close> is
  empty. The handler does not do this. With two additions \<open>fk_a\<close> and \<open>fk_b\<close> it returns
  the statement for \<open>fk_a\<close> alone, where the specification's handler returns both; with
  one drop and no addition it returns \<open>None\<close>, where the specification's handler returns
  the \<open>DROP\<close> statement.
\<close>

theorem process_foreign_keys_truncates:
  "process_foreign_keys ''prod''
     \<lparr>left_only = Some [\<lparr>fk_name = ''fk_a'', constrained_columns = [''a''], referred_table = ''r'',
                          referred_columns = [''id'']\<rparr>,
                        \<lparr>fk_name = ''fk_b'', constrained_columns = [''b''], referred_table = ''r'',
                          referred_columns = [''id'']\<rparr>],
      right_only = None, diff = None\<rparr> ''t''
     = Inr (Some ''ALTER TABLE prod.t ADD CONSTRAINT fk_a FOREIGN KEY (a) REFERENCES prod.r(id);'')
   \<and> process_foreign_keys_spec ''prod''
     \<lparr>left_only = Some [\<lparr>fk_name = ''fk_a'', constrained_columns = [''a''], referred_table = ''r'',
                          referred_columns = [''id'']\<rparr>,
                        \<lparr>fk_name = ''fk_b'', constrained_columns = [''b''], referred_table = ''r'',
                          referred_columns = [''id'']\<rparr>],
      right_only = None, diff = None\<rparr> ''t''
     = Inr (''ALTER TABLE prod.t ADD CONSTRAINT fk_a FOREIGN KEY (a) REFERENCES prod.r(id);\<newline>ALTER TABLE prod.t ADD CONSTRAINT fk_b FOREIGN KEY (b) REFERENCES prod.r(id);'')
   \<and> process_foreign_keys ''prod''
     \<lparr>left_only = None,
      right_only = Some [\<lparr>fk_name = ''fk_c'', constrained_columns = [''c''], referred_table = ''r'',
                          referred_columns = [''id'']\<rparr>],
      diff = None\<rparr> ''t''
     = Inr None
   \<and> process_foreign_keys_spec ''prod''
     \<lparr>left_only = None,
      right_only = Some [\<lparr>fk_name = ''fk_c'', constrained_columns = [''c''], referred_table = ''r'',
                          referred_columns = [''id'']\<rparr>],
      diff = None\<rparr> ''t''
     = Inr ''ALTER TABLE prod.t DROP FOREIGN KEY fk_c;''"
  by (simp add: process_foreign_keys_def process_foreign_keys_spec_def fk_add_def fk_drop_def nl_def)

lemma fk_bodies_reject_multi_column:
  "length (constrained_columns d) = length (referred_columns d) \<Longrightarrow>
   1 < length (constrained_columns d) \<or> 1 < length (referred_columns d) \<Longrightarrow>
   fk_drop db t d = Inl NotImplementedError \<and> fk_add db t d = Inl NotImplementedError"
  by (simp add: fk_drop_def fk_add_def)

text \<open>
  Claim C3. The claim: every foreign-key descriptor of the \<open>right_only\<close> list and of the
  \<open>left_only\<close> list with more than one constrained or referred column makes compilation
  raise the unsupported-feature error. Both loop bodies have the check, but the handler
  returns inside the loop over \<open>left_only\<close>, so only the first addition is ever checked.
  With the additions \<open>fk_a\<close> (one column) and \<open>fk_m\<close> (two constrained and two referred
  columns) the handler returns the statement for \<open>fk_a\<close> and raises nothing, although the
  loop body rejects \<open>fk_m\<close>; the specification's handler raises the unsupported-feature
  error.
\<close>

theorem process_foreign_keys_skips_later_checks:
  "process_foreign_keys ''prod''
     \<lparr>left_only = Some [\<lparr>fk_name = ''fk_a'', constrained_columns = [''a''], referred_table = ''r'',
                          referred_columns = [''id'']\<rparr>,
                        \<lparr>fk_name = ''fk_m'', constrained_columns = [''x'', ''y''],
                          referred_table = ''r'', referred_columns = [''p'', ''q'']\<rparr>],
      right_only = None, diff = None\<rparr> ''t''
     = Inr (Some ''ALTER TABLE prod.t ADD CONSTRAINT fk_a FOREIGN KEY (a) REFERENCES prod.r(id);'')
   \<and> fk_add ''prod'' ''t''
       \<lparr>fk_name = ''fk_m'', constrained_columns = [''x'', ''y''], referred_table = ''r'',
         referred_columns = [''p'', ''q'']\<rparr>
     = Inl NotImplementedError
   \<and> process_foreign_keys_spec ''prod''
     \<lparr>left_only = Some [\<lparr>fk_name = ''fk_a'', constrained_columns = [''a''], referred_table = ''r'',
                          referred_columns = [''id'']\<rparr>,
                        \<lparr>fk_name = ''fk_m'', constrained_columns = [''x'', ''y''],
                          referred_table = ''r'', referred_columns = [''p'', ''q'']\<rparr>],
      right_only = None, diff = None\<rparr> ''t''
     = Inl NotImplementedError"
  by (simp add: process_foreign_keys_def process_foreign_keys_spec_def fk_add_def fk_drop_def nl_def)

section \<open>Index handler\<close>

lemma collect_fail_prefix:
  "(\<forall>x\<in>set pre. body x = Inl e \<or> (\<exists>s. body x = Inr s)) \<Longrightarrow> body d = Inl e \<Longrightarrow>
   collect body (pre @ d # post) acc = Inl e"
  by (induction pre arbitrary: acc) auto

lemma collect_fail_uniform:
  assumes "\<forall>x\<in>set ds. body x = Inl e \<or> (\<exists>s. body x = Inr s)" and "d \<in> set ds" and "body d = Inl e"
  shows "collect body ds acc = Inl e"
proof -
  from assms(2) obtain pre post where ds: "ds = pre @ d # post"
    by (auto simp: in_set_conv_decomp)
  with assms(1) have "\<forall>x\<in>set pre. body x = Inl e \<or> (\<exists>s. body x = Inr s)" by auto
  from collect_fail_prefix[OF this assms(3)] ds show ?thesis by simp
qed

lemma index_drop_cases:
  "index_drop db t x = Inl NotImplementedError \<or> (\<exists>s. index_drop db t x = Inr s)"
  by (simp add: index_drop_def)

lemma index_drop_single:
  "length (column_names x) \<le> 1 \<Longrightarrow> \<exists>s. index_drop db t x = Inr s"
  by (simp add: index_drop_def)

lemma index_create_single:
  "length (column_names x) = 1 \<Longrightarrow> \<exists>s. index_create db t x = Inr s"
  by (cases "column_names x") (auto simp: index_create_def)

lemma index_create_none:
  "column_names x = [] \<Longrightarrow> index_create db t x = Inl IndexError"
  by (simp add: index_create_def)

lemma index_handler_fails:
  assumes multi: "1 < length (column_names d)"
    and mem: "d \<in> set (get_list (right_only ix)) \<or> d \<in> set (get_list (left_only ix))"
  shows "\<exists>e. process_index_change db ix t = Inl e"
proof (cases "collect (index_drop db t) (get_list (right_only ix)) []")
  case (Inl e)
  then show ?thesis by (simp add: process_index_change_def)
next
  case (Inr acc)
  have drop_d: "index_drop db t d = Inl NotImplementedError"
    using multi by (simp add: index_drop_def)
  have create_d: "index_create db t d = Inl NotImplementedError"
    using multi by (simp add: index_create_def)
  from collect_Inr_all[OF Inr] drop_d have "d \<notin> set (get_list (right_only ix))" by auto
  with mem have "d \<in> set (get_list (left_only ix))" by simp
  from collect_member_fails[of d "get_list (left_only ix)" "index_create db t" NotImplementedError acc]
    this create_d
  obtain e' where "collect (index_create db t) (get_list (left_only ix)) acc = Inl e'" by blast
  with Inr show ?thesis by (simp add: process_index_change_def)
qed

lemma tables_loop_fails:
  "(tn, ch) \<in> set tdata \<Longrightarrow> table_commands db tn ch = Inl e \<Longrightarrow>
   \<exists>e'. tables_loop db tdata acc = Inl e'"
proof (induction tdata arbitrary: acc)
  case Nil
  then show ?case by simp
next
  case (Cons p rest)
  obtain tn' ch' where p: "p = (tn', ch')" by (cases p)
  show ?case
  proof (cases "table_commands db tn' ch'")
    case (Inl e0)
    with p show ?thesis by simp
  next
    case (Inr cs)
    with Cons.prems p have "(tn, ch) \<in> set rest" by auto
    from Cons.IH[OF this Cons.prems(2), of "acc @ cs"] Inr p show ?thesis by simp
  qed
qed

lemma compile_fails_on_multi_column_index:
  assumes multi: "1 < length (column_names d)"
    and tab: "(tn, ch) \<in> set tdata"
    and mem: "d \<in> set (get_list (right_only (get_facet (indexes ch))))
              \<or> d \<in> set (get_list (left_only (get_facet (indexes ch))))"
  shows "\<exists>e. process_tables_change db tdata = Inl e"
proof -
  let ?ix = "get_facet (indexes ch)"
  from mem have "get_list (right_only ?ix) \<noteq> [] \<or> get_list (left_only ?ix) \<noteq> []" by auto
  then have truthy: "facet_truthy ?ix"
    by (cases "right_only ?ix"; cases "left_only ?ix") (auto simp: facet_truthy_def)
  from index_handler_fails[OF multi mem] obtain e0
    where "process_index_change db ?ix tn = Inl e0" by blast
  with truthy have "indexes_part db tn ch = Inl e0" by (simp add: indexes_part_def)
  then obtain e1 where "table_commands db tn ch = Inl e1"
    by (cases "columns_part db tn ch") (auto simp: table_commands_def)
  from tables_loop_fails[OF tab this] obtain e2 where "tables_loop db tdata [] = Inl e2" by blast
  then show ?thesis by (simp add: process_tables_change_def)
qed

text \<open>
  Claim C4, as stated, fails: with a creation-list descriptor that names no column standing
  before a two-column descriptor, the error raised is the index error of the first, not
  the unsupported-feature error.
\<close>

theorem index_error_before_unsupported:
  "length (column_names \<lparr>idx_name = ''ix'', column_names = [''a'', ''b''], unique = False\<rparr>) = 2
   \<and> process_index_change ''prod''
       \<lparr>left_only = Some [\<lparr>idx_name = ''none'', column_names = [], unique = True\<rparr>,
                          \<lparr>idx_name = ''ix'', column_names = [''a'', ''b''], unique = False\<rparr>],
        right_only = None, diff = None\<rparr> ''t'' = Inl IndexError"
  by (simp add: process_index_change_def index_create_def)

text \<open>
  Claim C4, amended. An index descriptor whose \<open>column_names\<close> holds more than one entry is
  rejected by the body of the removal loop and by the body of the creation loop with the
  unsupported-feature error, before either builds a statement. When such a descriptor
  stands in either list the index handler raises an error, and compilation of the whole
  \<open>tables_data\<close> ends in an error without output. The error the index handler raises is
  the unsupported-feature error, with one exception: when no removal-list descriptor has
  more than one column and the first creation-list descriptor that does not name exactly
  one column names none, the index error of that descriptor is raised first.
\<close>

theorem index_multi_column_rejected:
  assumes multi: "1 < length (column_names d)"
  shows "index_drop db t d = Inl NotImplementedError
     \<and> index_create db t d = Inl NotImplementedError
     \<and> (d \<in> set (get_list (right_only ix)) \<longrightarrow>
          process_index_change db ix t = Inl NotImplementedError)
     \<and> (d \<in> set (get_list (left_only ix)) \<longrightarrow>
          process_index_change db ix t
          = (if (\<forall>x\<in>set (get_list (right_only ix)). length (column_names x) \<le> 1)
                \<and> (case dropWhile (\<lambda>x. length (column_names x) = 1) (get_list (left_only ix)) of
                     [] \<Rightarrow> False
                   | z # later \<Rightarrow> column_names z = [])
             then Inl IndexError else Inl NotImplementedError))
     \<and> ((tn, ch) \<in> set tdata
          \<and> (d \<in> set (get_list (right_only (get_facet (indexes ch))))
              \<or> d \<in> set (get_list (left_only (get_facet (indexes ch))))) \<longrightarrow>
          (\<exists>e. process_tables_change db tdata = Inl e))"
proof -
  let ?rs = "get_list (right_only ix)"
  let ?ls = "get_list (left_only ix)"
  let ?single = "\<lambda>x. length (column_names x) = 1"
  have drop_d: "index_drop db t d = Inl NotImplementedError"
    using multi by (simp add: index_drop_def)
  have create_d: "index_create db t d = Inl NotImplementedError"
    using multi by (simp add: index_create_def)
  have right_multi: "process_index_change db ix t = Inl NotImplementedError"
    if "x \<in> set ?rs" "1 < length (column_names x)" for x
  proof -
    have "index_drop db t x = Inl NotImplementedError" using that(2) by (simp add: index_drop_def)
    then have "collect (index_drop db t) ?rs [] = Inl NotImplementedError"
      using index_drop_cases that(1) by (intro collect_fail_uniform[where d = x]) auto
    then show ?thesis by (simp add: process_index_change_def)
  qed
  have in_left: "process_index_change db ix t
          = (if (\<forall>x\<in>set ?rs. length (column_names x) \<le> 1)
                \<and> (case dropWhile ?single ?ls of [] \<Rightarrow> False | z # later \<Rightarrow> column_names z = [])
             then Inl IndexError else Inl NotImplementedError)"
    if d_left: "d \<in> set ?ls"
  proof (cases "\<forall>x\<in>set ?rs. length (column_names x) \<le> 1")
    case False
    then obtain x where "x \<in> set ?rs" "1 < length (column_names x)" by auto
    from right_multi[OF this] False show ?thesis by simp
  next
    case True
    then have "\<forall>x\<in>set ?rs. \<exists>s. index_drop db t x = Inr s" by (simp add: index_drop_single)
    from collect_ok[OF this, of "[]"] obtain acc
      where acc: "collect (index_drop db t) ?rs [] = Inr acc" by blast
    have "\<not> ?single d" using multi by simp
    with d_left have nz: "dropWhile ?single ?ls \<noteq> []" by (auto simp: dropWhile_eq_Nil_conv)
    then obtain z later where dw: "dropWhile ?single ?ls = z # later"
      by (cases "dropWhile ?single ?ls") auto
    from hd_dropWhile[OF nz] dw have z: "\<not> ?single z" by simp
    have split: "?ls = takeWhile ?single ?ls @ z # later"
      using takeWhile_dropWhile_id[of ?single ?ls] by (simp only: dw)
    have pre: "\<forall>x\<in>set (takeWhile ?single ?ls). \<exists>s. index_create db t x = Inr s"
      using index_create_single by (auto dest: set_takeWhileD)
    show ?thesis
    proof (cases "column_names z = []")
      case empty: True
      from collect_stops[OF pre index_create_none[OF empty], of later acc] split
      have "collect (index_create db t) ?ls acc = Inl IndexError" by simp
      with acc True dw empty show ?thesis by (simp add: process_index_change_def)
    next
      case nonempty: False
      with z have "1 < length (column_names z)" by (cases "column_names z") auto
      then have "index_create db t z = Inl NotImplementedError" by (simp add: index_create_def)
      from collect_stops[OF pre this, of later acc] split
      have "collect (index_create db t) ?ls acc = Inl NotImplementedError" by simp
      with acc dw nonempty show ?thesis by (simp add: process_index_change_def)
    qed
  qed
  have whole: "\<exists>e. process_tables_change db tdata = Inl e"
    if "(tn, ch) \<in> set tdata"
       "d \<in> set (get_list (right_only (get_facet (indexes ch))))
        \<or> d \<in> set (get_list (left_only (get_facet (indexes ch))))"
    using compile_fails_on_multi_column_index[OF multi that] .
  from drop_d create_d right_multi[OF _ multi] in_left whole show ?thesis by blast
qed

theorem index_multi_column_rejected_witness:
  "index_drop ''prod'' ''t'' \<lparr>idx_name = ''ix'', column_names = [''a'', ''b''], unique = False\<rparr>
     = Inl NotImplementedError
   \<and> index_create ''prod'' ''t'' \<lparr>idx_name = ''ix'', column_names = [''a'', ''b''], unique = False\<rparr>
     = Inl NotImplementedError
   \<and> process_index_change ''prod''
       \<lparr>left_only = None,
        right_only = Some [\<lparr>idx_name = ''ix'', column_names = [''a'', ''b''], unique = False\<rparr>],
        diff = None\<rparr> ''t'' = Inl NotImplementedError
   \<and> process_index_change ''prod''
       \<lparr>left_only = Some [\<lparr>idx_name = ''one'', column_names = [''c''], unique = True\<rparr>,
                          \<lparr>idx_name = ''ix'', column_names = [''a'', ''b''], unique = False\<rparr>],
        right_only = None, diff = None\<rparr> ''t'' = Inl NotImplementedError
   \<and> process_index_change ''prod''
       \<lparr>left_only = Some [\<lparr>idx_name = ''none'', column_names = [], unique = True\<rparr>,
                          \<lparr>idx_name = ''ix'', column_names = [''a'', ''b''], unique = False\<rparr>],
        right_only = None, diff = None\<rparr> ''t'' = Inl IndexError
   \<and> (\<exists>e. process_tables_change ''prod''
         [(''t'', \<lparr>columns = None,
                  indexes = Some \<lparr>left_only = Some [\<lparr>idx_name = ''ix'', column_names = [''a'', ''b''],
                                                      unique = False\<rparr>],
                                   right_only = None, diff = None\<rparr>,
                  primary_keys = None, foreign_keys = None\<rparr>)] = Inl e)"
  using
    index_multi_column_rejected[of
      "\<lparr>idx_name = ''ix'', column_names = [''a'', ''b''], unique = False\<rparr>" "''prod''" _ _
      "''t''"
      "\<lparr>columns = None,
        indexes = Some \<lparr>left_only = Some [\<lparr>idx_name = ''ix'', column_names = [''a'', ''b''],
                                            unique = False\<rparr>],
                         right_only = None, diff = None\<rparr>,
        primary_keys = None, foreign_keys = None\<rparr>"
      "[(''t'', \<lparr>columns = None,
                indexes = Some \<lparr>left_only = Some [\<lparr>idx_name = ''ix'', column_names = [''a'', ''b''],
                                                    unique = False\<rparr>],
                                 right_only = None, diff = None\<rparr>,
                primary_keys = None, foreign_keys = None\<rparr>)]"]
    index_multi_column_rejected[of
      "\<lparr>idx_name = ''ix'', column_names = [''a'', ''b''], unique = False\<rparr>" "''prod''" "''t''"
      "\<lparr>left_only = None,
        right_only = Some [\<lparr>idx_name = ''ix'', column_names = [''a'', ''b''], unique = False\<rparr>],
        diff = None\<rparr>"]
    index_multi_column_rejected[of
      "\<lparr>idx_name = ''ix'', column_names = [''a'', ''b''], unique = False\<rparr>" "''prod''" "''t''"
      "\<lparr>left_only = Some [\<lparr>idx_name = ''one'', column_names = [''c''], unique = True\<rparr>,
                          \<lparr>idx_name = ''ix'', column_names = [''a'', ''b''], unique = False\<rparr>],
        right_only = None, diff = None\<rparr>"]
    index_multi_column_rejected[of
      "\<lparr>idx_name = ''ix'', column_names = [''a'', ''b''], unique = False\<rparr>" "''prod''" "''t''"
      "\<lparr>left_only = Some [\<lparr>idx_name = ''none'', column_names = [], unique = True\<rparr>,
                          \<lparr>idx_name = ''ix'', column_names = [''a'', ''b''], unique = False\<rparr>],
        right_only = None, diff = None\<rparr>"]
  by simp

section \<open>Helper facts on columns and tables\<close>

lemma pk_flag_fold:
  "fold (\<lambda>primary_key pk. if primary_key = nm then True else pk) pks b = (b \<or> nm \<in> set pks)"
  by (induction pks arbitrary: b) auto

lemma pk_flag_iff: "pk_flag pks nm = (nm \<in> set pks)"
  by (simp add: pk_flag_def pk_flag_fold)

lemma read_db_schema_single:
  "read_db_schema (\<lambda>_. [row]) [tname] = [(tname, [row])]"
  by (simp add: read_db_schema_def)

section \<open>Table creation\<close>

text \<open>
  Claim C5. For the table \<open>t\<close> described by the single row
  \<open>("id", "INT", "NO", "PRI", None, "AUTO_INCREMENT")\<close> the table-creation compiler outputs
  exactly \<open>CREATE TABLE <right>.t (id INT NOT NULL PRIMARY KEY AUTO_INCREMENT);\<close>. Every
  column clause is \<open><name> <type>\<close>, then \<open>NOT NULL\<close> when the nullability is \<open>"NO"\<close>,
  \<open>PRIMARY KEY\<close> or \<open>UNIQUE\<close> from the key field, a quoted \<open>DEFAULT\<close> when a default
  exists, and the extra modifier as it is.
\<close>

theorem create_table_column_clauses:
  "create_table_script db ''t'' [(''id'', ''INT'', ''NO'', ''PRI'', None, ''AUTO_INCREMENT'')]
     = ''CREATE TABLE '' @ db @ ''.t (id INT NOT NULL PRIMARY KEY AUTO_INCREMENT);''
   \<and> process_schema_change db (\<lambda>table. [(''id'', ''INT'', ''NO'', ''PRI'', None, ''AUTO_INCREMENT'')])
        \<lparr>left_only = Some [''t''], right_only = None, diff = None\<rparr>
     = ''CREATE TABLE '' @ db @ ''.t (id INT NOT NULL PRIMARY KEY AUTO_INCREMENT);''
   \<and> column_def (cname, ctype, cnullable, key, cdefault, extra)
     = cname @ '' '' @ ctype
       @ (if cnullable = ''NO'' then '' NOT NULL'' else [])
       @ (if key = ''PRI'' then '' PRIMARY KEY'' else if key = ''UNI'' then '' UNIQUE'' else [])
       @ (case cdefault of None \<Rightarrow> [] | Some d \<Rightarrow> '' DEFAULT '' @ apostrophe @ d @ apostrophe)
       @ (if extra = [] then [] else '' '' @ extra)
   \<and> create_table_script db table_name cols
     = ''CREATE TABLE '' @ db @ ''.'' @ table_name @ '' ('' @ join '', '' (map column_def cols) @ '');''"
proof -
  have c1: "create_table_script db ''t'' [(''id'', ''INT'', ''NO'', ''PRI'', None, ''AUTO_INCREMENT'')]
     = ''CREATE TABLE '' @ db @ ''.t (id INT NOT NULL PRIMARY KEY AUTO_INCREMENT);''"
    by (simp add: create_table_script_def)
  have c2: "process_schema_change db (\<lambda>table. [(''id'', ''INT'', ''NO'', ''PRI'', None, ''AUTO_INCREMENT'')])
        \<lparr>left_only = Some [''t''], right_only = None, diff = None\<rparr>
     = ''CREATE TABLE '' @ db @ ''.t (id INT NOT NULL PRIMARY KEY AUTO_INCREMENT);''"
    unfolding process_schema_change_def create_tables_ddl_def
    by (simp add: read_db_schema_single c1 del: column_def.simps)
  have c3: "column_def (cname, ctype, cnullable, key, cdefault, extra)
     = cname @ '' '' @ ctype
       @ (if cnullable = ''NO'' then '' NOT NULL'' else [])
       @ (if key = ''PRI'' then '' PRIMARY KEY'' else if key = ''UNI'' then '' UNIQUE'' else [])
       @ (case cdefault of None \<Rightarrow> [] | Some d \<Rightarrow> '' DEFAULT '' @ apostrophe @ d @ apostrophe)
       @ (if extra = [] then [] else '' '' @ extra)"
    by (auto simp: Let_def split: option.splits)
  show ?thesis using c1 c2 c3 by (simp only: create_table_script_def simp_thms)
qed

theorem create_table_column_clauses_witness:
  "create_table_script ''prod'' ''t'' [(''id'', ''INT'', ''NO'', ''PRI'', None, ''AUTO_INCREMENT'')]
     = ''CREATE TABLE prod.t (id INT NOT NULL PRIMARY KEY AUTO_INCREMENT);''
   \<and> column_def (''email'', ''VARCHAR(64)'', ''YES'', ''UNI'', Some ''none'', [])
     = ''email VARCHAR(64) UNIQUE DEFAULT '' @ apostrophe @ ''none'' @ apostrophe"
  using create_table_column_clauses[of "''prod''" "''email''" "''VARCHAR(64)''" "''YES''" "''UNI''"
      "Some ''none''" "[]" "''t''" "[]"]
  by simp

section \<open>Column clauses\<close>

text \<open>
  Claim C6. For every column diff pair the compiler takes the left descriptor and emits one
  \<open>ALTER TABLE ... MODIFY COLUMN\<close> statement: \<open><action> COLUMN <name> <type>\<close> followed, in
  this order, by \<open>PRIMARY KEY\<close> iff the name is in the left primary-key list,
  \<open>AUTO_INCREMENT\<close> iff marked, \<open>NOT NULL\<close> iff not nullable, an unquoted \<open>DEFAULT\<close> iff a
  default is present, and \<open>COMMENT\<close> iff present. For the left descriptor
  \<open>{name: "age", type: "INT", nullable: True}\<close> outside the primary-key list the output is
  \<open>ALTER TABLE <right>.t MODIFY COLUMN age INT;\<close>.
\<close>

theorem modify_column_clauses:
  "alter_table_writer db t f action pk
     = ''ALTER TABLE '' @ db @ ''.'' @ t @ '' '' @ action @ '' COLUMN '' @ col_name f @ '' '' @ col_type f
       @ (if pk then '' PRIMARY KEY'' else [])
       @ (if truthy (dict_get (autoincrement f)) then '' AUTO_INCREMENT'' else [])
       @ (if truthy (dict_get (nullable f)) then [] else '' NOT NULL'')
       @ (if dict_get (default f) = PNone then [] else '' DEFAULT '' @ py_str (dict_get (default f)))
       @ (if truthy (dict_get (comment f))
          then '' COMMENT '' @ apostrophe @ py_str (dict_get (comment f)) @ apostrophe else [])
       @ '';''
   \<and> modify_stmt db pks t \<lparr>left = Some f, right = r\<rparr>
     = Inr (alter_table_writer db t f ''MODIFY'' (col_name f \<in> set pks))
   \<and> process_same_columns_change db (map (\<lambda>(l, r). \<lparr>left = Some l, right = r\<rparr>) pairs) pks t
     = Inr (join nl (map (\<lambda>(l, r). alter_table_writer db t l ''MODIFY'' (col_name l \<in> set pks)) pairs))
   \<and> (''age'' \<notin> set pks \<longrightarrow>
        process_same_columns_change db
          [\<lparr>left = Some \<lparr>col_name = ''age'', col_type = ''INT'', nullable = Some (PBool True),
                         default = None, autoincrement = None, comment = None\<rparr>,
            right = r\<rparr>] pks ''t''
        = Inr (''ALTER TABLE '' @ db @ ''.t MODIFY COLUMN age INT;''))"
proof -
  have w: "alter_table_writer db t f action pk
     = ''ALTER TABLE '' @ db @ ''.'' @ t @ '' '' @ action @ '' COLUMN '' @ col_name f @ '' '' @ col_type f
       @ (if pk then '' PRIMARY KEY'' else [])
       @ (if truthy (dict_get (autoincrement f)) then '' AUTO_INCREMENT'' else [])
       @ (if truthy (dict_get (nullable f)) then [] else '' NOT NULL'')
       @ (if dict_get (default f) = PNone then [] else '' DEFAULT '' @ py_str (dict_get (default f)))
       @ (if truthy (dict_get (comment f))
          then '' COMMENT '' @ apostrophe @ py_str (dict_get (comment f)) @ apostrophe else [])
       @ '';''" for db t f action pk
    by (simp add: alter_table_writer_def Let_def)
  have m: "modify_stmt db pks t \<lparr>left = Some f, right = r\<rparr>
     = Inr (alter_table_writer db t f ''MODIFY'' (col_name f \<in> set pks))" for t f r
    by (simp add: modify_stmt_def pk_flag_iff)
  have "\<forall>d\<in>set (map (\<lambda>(l, r). \<lparr>left = Some l, right = r\<rparr>) pairs).
          \<exists>s. modify_stmt db pks t d = Inr s"
    using m by auto
  from collect_ok[OF this, of "[]"]
  have p: "process_same_columns_change db (map (\<lambda>(l, r). \<lparr>left = Some l, right = r\<rparr>) pairs) pks t
     = Inr (join nl (map (\<lambda>(l, r). alter_table_writer db t l ''MODIFY'' (col_name l \<in> set pks)) pairs))"
    by (simp add: process_same_columns_change_def m comp_def case_prod_unfold)
  have a: "process_same_columns_change db
          [\<lparr>left = Some \<lparr>col_name = ''age'', col_type = ''INT'', nullable = Some (PBool True),
                         default = None, autoincrement = None, comment = None\<rparr>,
            right = r\<rparr>] pks ''t''
        = Inr (''ALTER TABLE '' @ db @ ''.t MODIFY COLUMN age INT;'')" if "''age'' \<notin> set pks"
    using that by (simp add: process_same_columns_change_def m w)
  show ?thesis using w m p a by blast
qed


theorem modify_column_clauses_witness:
  "process_same_columns_change ''prod''
     [\<lparr>left = Some \<lparr>col_name = ''age'', col_type = ''INT'', nullable = Some (PBool True),
                    default = None, autoincrement = None, comment = None\<rparr>,
       right = None\<rparr>] [''id''] ''t''
   = Inr ''ALTER TABLE prod.t MODIFY COLUMN age INT;''
   \<and> alter_table_writer ''prod'' ''t''
        \<lparr>col_name = ''id'', col_type = ''INT'', nullable = Some (PBool False),
          default = Some (PInt 7), autoincrement = Some (PBool True), comment = Some (PStr ''key'')\<rparr>
        ''MODIFY'' True
   = ''ALTER TABLE prod.t MODIFY COLUMN id INT PRIMARY KEY AUTO_INCREMENT NOT NULL DEFAULT 7 COMMENT ''
       @ apostrophe @ ''key'' @ apostrophe @ '';''"
  using
    modify_column_clauses[of "''prod''" "''t''" _ _ _ "[''id'']" None "[]"]
    modify_column_clauses[of "''prod''" "''t''"
      "\<lparr>col_name = ''id'', col_type = ''INT'', nullable = Some (PBool False),
        default = Some (PInt 7), autoincrement = Some (PBool True), comment = Some (PStr ''key'')\<rparr>"
      "''MODIFY''" True "[]" None "[]"]
  by (simp add: str_of_int_def digit_char_def)


text \<open>
  Claim C10. In the ADD/MODIFY column-clause builder nullability is decided by the
  truthiness of the optional \<open>nullable\<close> field: a descriptor without the key, or with any
  falsy value, gets \<open>NOT NULL\<close> appended; the table-creation path appends \<open>NOT NULL\<close> only
  when the nullability string equals \<open>"NO"\<close>.
\<close>

theorem nullable_truthiness:
  "alter_table_writer db t f action pk
     = (''ALTER TABLE '' @ db @ ''.'' @ t @ '' '' @ action @ '' COLUMN '' @ col_name f @ '' '' @ col_type f
        @ (if pk then '' PRIMARY KEY'' else [])
        @ (if truthy (dict_get (autoincrement f)) then '' AUTO_INCREMENT'' else []))
       @ (if truthy (dict_get (nullable f)) then [] else '' NOT NULL'')
       @ ((if dict_get (default f) = PNone then [] else '' DEFAULT '' @ py_str (dict_get (default f)))
        @ (if truthy (dict_get (comment f))
           then '' COMMENT '' @ apostrophe @ py_str (dict_get (comment f)) @ apostrophe else [])
        @ '';'')
   \<and> (nullable f = None \<or> nullable f = Some PNone \<or> nullable f = Some (PBool False)
        \<or> nullable f = Some (PInt 0) \<or> nullable f = Some (PStr [])
        \<longrightarrow> \<not> truthy (dict_get (nullable f))
            \<and> alter_table_writer db t f action pk
              = (''ALTER TABLE '' @ db @ ''.'' @ t @ '' '' @ action @ '' COLUMN '' @ col_name f @ '' ''
                 @ col_type f
                 @ (if pk then '' PRIMARY KEY'' else [])
                 @ (if truthy (dict_get (autoincrement f)) then '' AUTO_INCREMENT'' else []))
                @ '' NOT NULL''
                @ ((if dict_get (default f) = PNone then []
                    else '' DEFAULT '' @ py_str (dict_get (default f)))
                 @ (if truthy (dict_get (comment f))
                    then '' COMMENT '' @ apostrophe @ py_str (dict_get (comment f)) @ apostrophe
                    else [])
                 @ '';''))
   \<and> column_def (cname, ctype, cnullable, key, cdefault, extra)
     = (cname @ '' '' @ ctype)
       @ (if cnullable = ''NO'' then '' NOT NULL'' else [])
       @ ((if key = ''PRI'' then '' PRIMARY KEY'' else if key = ''UNI'' then '' UNIQUE'' else [])
        @ (case cdefault of None \<Rightarrow> [] | Some d \<Rightarrow> '' DEFAULT '' @ apostrophe @ d @ apostrophe)
        @ (if extra = [] then [] else '' '' @ extra))"
proof -
  have w: "alter_table_writer db t f action pk
     = (''ALTER TABLE '' @ db @ ''.'' @ t @ '' '' @ action @ '' COLUMN '' @ col_name f @ '' '' @ col_type f
        @ (if pk then '' PRIMARY KEY'' else [])
        @ (if truthy (dict_get (autoincrement f)) then '' AUTO_INCREMENT'' else []))
       @ (if truthy (dict_get (nullable f)) then [] else '' NOT NULL'')
       @ ((if dict_get (default f) = PNone then [] else '' DEFAULT '' @ py_str (dict_get (default f)))
        @ (if truthy (dict_get (comment f))
           then '' COMMENT '' @ apostrophe @ py_str (dict_get (comment f)) @ apostrophe else [])
        @ '';'')"
    by (simp add: alter_table_writer_def Let_def)
  have falsy: "\<not> truthy (dict_get (nullable f))"
    if "nullable f = None \<or> nullable f = Some PNone \<or> nullable f = Some (PBool False)
        \<or> nullable f = Some (PInt 0) \<or> nullable f = Some (PStr [])"
    using that by auto
  have c: "column_def (cname, ctype, cnullable, key, cdefault, extra)
     = (cname @ '' '' @ ctype)
       @ (if cnullable = ''NO'' then '' NOT NULL'' else [])
       @ ((if key = ''PRI'' then '' PRIMARY KEY'' else if key = ''UNI'' then '' UNIQUE'' else [])
        @ (case cdefault of None \<Rightarrow> [] | Some d \<Rightarrow> '' DEFAULT '' @ apostrophe @ d @ apostrophe)
        @ (if extra = [] then [] else '' '' @ extra))"
    by (auto simp: Let_def split: option.splits)
  show ?thesis
    apply (intro conjI impI)
    subgoal by (rule w)
    subgoal by (rule falsy)
    subgoal using falsy w by simp
    subgoal by (rule c)
    done
qed

theorem nullable_truthiness_witness:
  "alter_table_writer ''prod'' ''t''
     \<lparr>col_name = ''age'', col_type = ''INT'', nullable = None, default = None,
       autoincrement = None, comment = None\<rparr> ''ADD'' False
   = ''ALTER TABLE prod.t ADD COLUMN age INT NOT NULL;''
   \<and> column_def (''age'', ''INT'', [], [], None, []) = ''age INT''"
  using nullable_truthiness[of "''prod''" "''t''"
     "\<lparr>col_name = ''age'', col_type = ''INT'', nullable = None, default = None,
       autoincrement = None, comment = None\<rparr>" "''ADD''" False "''age''" "''INT''" "[]" "[]" None "[]"]
  by simp

section \<open>Statement order\<close>


lemma join_append:
  "xs \<noteq> [] \<Longrightarrow> ys \<noteq> [] \<Longrightarrow> join sep (xs @ ys) = join sep xs @ sep @ join sep ys"
proof (induction sep xs rule: join.induct)
  case (1 sep)
  then show ?case by simp
next
  case (2 sep x)
  then show ?case by (cases ys) auto
next
  case (3 sep x y zs)
  then show ?case by simp
qed

lemma those_Some_iff: "those xs = Some ys \<longleftrightarrow> xs = map Some ys"
proof (induction xs arbitrary: ys)
  case Nil
  then show ?case by auto
next
  case (Cons x xs)
  then show ?case by (cases x; cases ys) (auto split: option.splits)
qed

lemma tables_loop_parts:
  "tables_loop db tdata acc = Inr res \<Longrightarrow>
   \<exists>css. list_all2 (\<lambda>(tn, ch) cs. table_commands db tn ch = Inr cs) tdata css \<and> res = acc @ concat css"
proof (induction tdata arbitrary: acc)
  case Nil
  then show ?case by simp
next
  case (Cons p rest)
  obtain tn ch where p: "p = (tn, ch)" by (cases p)
  from Cons.prems p obtain cs where cs: "table_commands db tn ch = Inr cs"
    and rest: "tables_loop db rest (acc @ cs) = Inr res"
    by (auto split: sum.splits)
  from Cons.IH[OF rest] obtain css
    where "list_all2 (\<lambda>(tn, ch) cs. table_commands db tn ch = Inr cs) rest css"
      and "res = (acc @ cs) @ concat css" by blast
  then have "list_all2 (\<lambda>(tn, ch) cs. table_commands db tn ch = Inr cs) (p # rest) (cs # css)
             \<and> res = acc @ concat (cs # css)"
    using p cs by simp
  then show ?case by blast
qed

lemma process_schema_change_order:
  "process_schema_change db dsc tbls
     = (let creates = map (\<lambda>(tb, info). create_table_script db tb info)
                          (read_db_schema dsc (get_list (left_only tbls)));
            drops = map (drop_table_stmt db) (get_list (right_only tbls))
        in if get_list (left_only tbls) \<noteq> [] \<and> creates = [] \<and> drops \<noteq> []
           then nl @ join nl drops
           else join nl (creates @ drops))"
proof -
  let ?adds = "get_list (left_only tbls)"
  let ?creates = "map (\<lambda>(tb, info). create_table_script db tb info) (read_db_schema dsc ?adds)"
  let ?drops = "map (drop_table_stmt db) (get_list (right_only tbls))"
  have empty_adds: "?creates = []" if "?adds = []"
    using that by (simp add: read_db_schema_def)
  show ?thesis
  proof (cases "?adds = []")
    case True
    then show ?thesis
      using empty_adds by (simp add: process_schema_change_def Let_def)
  next
    case adds: False
    show ?thesis
    proof (cases "?creates = []")
      case True
      then show ?thesis using adds
        by (cases "get_list (right_only tbls) = []")
           (simp_all add: process_schema_change_def Let_def create_tables_ddl_def)
    next
      case False
      then show ?thesis using adds join_append[of ?creates ?drops nl]
        by (cases "get_list (right_only tbls) = []")
           (simp_all add: process_schema_change_def Let_def create_tables_ddl_def)
    qed
  qed
qed


lemma process_column_change_order:
  "process_column_change db cols pks t = Inr out1 \<Longrightarrow>
   \<exists>modified. process_same_columns_change db (get_list (diff cols)) (get_list (left_only pks)) t
                 = Inr modified
     \<and> out1 = join nl (map (drop_column_stmt db t) (get_list (right_only cols))
                       @ [process_diff_columns_change db (get_list (left_only cols))
                            (get_list (left_only pks)) t, modified])"
  by (auto simp: process_column_change_def Let_def split: sum.splits)

lemma table_commands_order:
  "table_commands db t ch = Inr cs \<Longrightarrow>
   \<exists>c1 c2 c4. columns_part db t ch = Inr c1 \<and> indexes_part db t ch = Inr c2
     \<and> foreign_keys_part db t ch = Inr c4 \<and> cs = c1 @ c2 @ primary_keys_part db t ch @ c4"
  by (auto simp: table_commands_def Let_def split: sum.splits)

lemma process_tables_change_order:
  assumes "process_tables_change db tdata = Inr out"
  shows "\<exists>css ys. list_all2 (\<lambda>(tn, ch) cs. table_commands db tn ch = Inr cs) tdata css
           \<and> concat css = map Some ys \<and> out = join nl ys"
proof -
  from assms obtain res where res: "tables_loop db tdata [] = Inr res"
    and j: "join_checked res = Inr out"
    by (auto simp: process_tables_change_def split: sum.splits)
  from j obtain ys where ys: "those res = Some ys" and out: "out = join nl ys"
    by (auto simp: join_checked_def split: option.splits)
  from tables_loop_parts[OF res] obtain css
    where "list_all2 (\<lambda>(tn, ch) cs. table_commands db tn ch = Inr cs) tdata css" "res = concat css"
    by auto
  with ys out show ?thesis by (auto simp: those_Some_iff)
qed

text \<open>
  Claim C7. The order of the statements in the compiler's output is fixed. In the tables
  facet every \<open>CREATE TABLE\<close> statement stands before every \<open>DROP table\<close> statement. For one
  table of \<open>tables_data\<close> the column statements come first, then the index statements, then
  the primary-key statements, then the foreign-key statements, and the tables follow each
  other in the order of \<open>tables_data\<close>. Among the column statements the drops
  (\<open>right_only\<close>) stand before the additions (\<open>left_only\<close>), and these before the
  modifications (\<open>diff\<close>).
\<close>

theorem statement_order:
  "process_schema_change db dsc tbls
     = (let creates = map (\<lambda>(tb, info). create_table_script db tb info)
                          (read_db_schema dsc (get_list (left_only tbls)));
            drops = map (drop_table_stmt db) (get_list (right_only tbls))
        in if get_list (left_only tbls) \<noteq> [] \<and> creates = [] \<and> drops \<noteq> []
           then nl @ join nl drops
           else join nl (creates @ drops))
   \<and> prefix ''CREATE TABLE '' (create_table_script db tb info)
   \<and> prefix ''DROP table '' (drop_table_stmt db tb)
   \<and> (process_column_change db cols pks t = Inr out1 \<longrightarrow>
        (\<exists>modified. process_same_columns_change db (get_list (diff cols)) (get_list (left_only pks)) t
                      = Inr modified
          \<and> out1 = join nl (map (drop_column_stmt db t) (get_list (right_only cols))
                            @ [process_diff_columns_change db (get_list (left_only cols))
                                 (get_list (left_only pks)) t, modified])))
   \<and> (table_commands db t ch = Inr cs \<longrightarrow>
        (\<exists>c1 c2 c4. columns_part db t ch = Inr c1 \<and> indexes_part db t ch = Inr c2
          \<and> foreign_keys_part db t ch = Inr c4 \<and> cs = c1 @ c2 @ primary_keys_part db t ch @ c4))
   \<and> (process_tables_change db tdata = Inr out \<longrightarrow>
        (\<exists>css ys. list_all2 (\<lambda>(tn, ch) cs. table_commands db tn ch = Inr cs) tdata css
           \<and> concat css = map Some ys \<and> out = join nl ys))"
proof -
  have p1: "prefix ''CREATE TABLE '' (create_table_script db tb info)"
    by (simp add: create_table_script_def)
  have p2: "prefix ''DROP table '' (drop_table_stmt db tb)"
    by (simp add: drop_table_stmt_def)
  show ?thesis
    using process_schema_change_order[of db dsc tbls] p1 p2
      process_column_change_order[of db cols pks t out1]
      table_commands_order[of db t ch cs]
      process_tables_change_order[of db tdata out]
    by blast
qed


theorem statement_order_witness:
  "process_schema_change ''prod'' (\<lambda>table. [(''id'', ''INT'', ''NO'', ''PRI'', None, ''AUTO_INCREMENT'')])
        \<lparr>left_only = Some [''fresh''], right_only = Some [''old''], diff = None\<rparr>
     = ''CREATE TABLE prod.fresh (id INT NOT NULL PRIMARY KEY AUTO_INCREMENT);\<newline>DROP table prod.old;''
   \<and> process_tables_change ''prod''
       [(''t'',
         \<lparr>columns = Some
            \<lparr>left_only = Some [\<lparr>col_name = ''email'', col_type = ''VARCHAR(64)'',
                                 nullable = Some (PBool True), default = None,
                                 autoincrement = None, comment = None\<rparr>],
             right_only = Some [\<lparr>col_name = ''legacy'', col_type = ''INT'', nullable = None,
                                  default = None, autoincrement = None, comment = None\<rparr>],
             diff = Some [\<lparr>left = Some \<lparr>col_name = ''age'', col_type = ''INT'',
                                           nullable = Some (PBool True), default = None,
                                           autoincrement = None, comment = None\<rparr>,
                            right = None\<rparr>]\<rparr>,
          indexes = Some
            \<lparr>left_only = Some [\<lparr>idx_name = ''ux_email'', column_names = [''email''], unique = True\<rparr>],
             right_only = None, diff = None\<rparr>,
          primary_keys = Some \<lparr>left_only = None, right_only = Some [''legacy''], diff = None\<rparr>,
          foreign_keys = Some
            \<lparr>left_only = Some [\<lparr>fk_name = ''fk_a'', constrained_columns = [''a''],
                                 referred_table = ''r'', referred_columns = [''id'']\<rparr>],
             right_only = None, diff = None\<rparr>\<rparr>)]
     = Inr ''ALTER TABLE prod.t DROP COLUMN legacy;\<newline>ALTER TABLE prod.t ADD COLUMN email VARCHAR(64);\<newline>ALTER TABLE prod.t MODIFY COLUMN age INT;\<newline>CREATE UNIQUE INDEX ux_email ON prod.t(email);\<newline>ALTER TABLE prod.t DROP PRIMARY KEY;\<newline>ALTER TABLE prod.t ADD CONSTRAINT fk_a FOREIGN KEY (a) REFERENCES prod.r(id);''
   \<and> (\<exists>css ys. list_all2 (\<lambda>(tn, ch) cs. table_commands ''prod'' tn ch = Inr cs)
       [(''t'',
         \<lparr>columns = Some
            \<lparr>left_only = Some [\<lparr>col_name = ''email'', col_type = ''VARCHAR(64)'',
                                 nullable = Some (PBool True), default = None,
                                 autoincrement = None, comment = None\<rparr>],
             right_only = Some [\<lparr>col_name = ''legacy'', col_type = ''INT'', nullable = None,
                                  default = None, autoincrement = None, comment = None\<rparr>],
             diff = Some [\<lparr>left = Some \<lparr>col_name = ''age'', col_type = ''INT'',
                                           nullable = Some (PBool True), default = None,
                                           autoincrement = None, comment = None\<rparr>,
                            right = None\<rparr>]\<rparr>,
          indexes = Some
            \<lparr>left_only = Some [\<lparr>idx_name = ''ux_email'', column_names = [''email''], unique = True\<rparr>],
             right_only = None, diff = None\<rparr>,
          primary_keys = Some \<lparr>left_only = None, right_only = Some [''legacy''], diff = None\<rparr>,
          foreign_keys = Some
            \<lparr>left_only = Some [\<lparr>fk_name = ''fk_a'', constrained_columns = [''a''],
                                 referred_table = ''r'', referred_columns = [''id'']\<rparr>],
             right_only = None, diff = None\<rparr>\<rparr>)] css
       \<and> concat css = map Some ys
       \<and> ''ALTER TABLE prod.t DROP COLUMN legacy;\<newline>ALTER TABLE prod.t ADD COLUMN email VARCHAR(64);\<newline>ALTER TABLE prod.t MODIFY COLUMN age INT;\<newline>CREATE UNIQUE INDEX ux_email ON prod.t(email);\<newline>ALTER TABLE prod.t DROP PRIMARY KEY;\<newline>ALTER TABLE prod.t ADD CONSTRAINT fk_a FOREIGN KEY (a) REFERENCES prod.r(id);'' = join nl ys)"
  (is "?A \<and> ?B \<and> ?C")
proof -
  have b: ?B by code_simp
  have a: ?A
    using statement_order[where db = "''prod''"
        and dsc = "\<lambda>table. [(''id'', ''INT'', ''NO'', ''PRI'', None, ''AUTO_INCREMENT'')]"
        and tbls = "\<lparr>left_only = Some [''fresh''], right_only = Some [''old''], diff = None\<rparr>"]
    by (simp add: read_db_schema_def create_table_script_def drop_table_stmt_def nl_def)
  have c: ?C
    using statement_order[THEN conjunct2, THEN conjunct2, THEN conjunct2, THEN conjunct2,
        THEN conjunct2, THEN mp, OF b] .
  from a b c show ?thesis by (intro conjI)
qed
section \<open>Discovery of the latest migration file\<close>


lemma strptime_error: "strptime dec g = Inl e \<Longrightarrow> e = ValueError"
  by (simp add: strptime_def Let_def split: if_splits)

lemma loop_from_some:
  "find_latest_loop dec rest (Some ts) (Some f0) = Inr r \<Longrightarrow>
   \<exists>f ts'. r = Some f
     \<and> (f = f0 \<and> ts' = ts \<or> f \<in> set rest \<and> (\<exists>g. match_name dec f = Some g \<and> strptime dec g = Inr ts'))
     \<and> ts \<le> ts'
     \<and> (\<forall>f'\<in>set rest. \<forall>g' t'. match_name dec f' = Some g' \<and> strptime dec g' = Inr t' \<longrightarrow> t' \<le> ts')"
proof (induction rest arbitrary: ts f0)
  case Nil
  then have "r = Some f0" by simp
  then show ?case by (intro exI[of _ f0] exI[of _ ts]) simp
next
  case (Cons entry rest)
  show ?case
  proof (cases "match_name dec entry")
    case None
    with Cons.prems have "find_latest_loop dec rest (Some ts) (Some f0) = Inr r" by simp
    from Cons.IH[OF this] obtain f ts' where r: "r = Some f"
      and f: "f = f0 \<and> ts' = ts \<or> f \<in> set rest \<and> (\<exists>g. match_name dec f = Some g \<and> strptime dec g = Inr ts')"
      and le: "ts \<le> ts'"
      and all: "\<forall>f'\<in>set rest. \<forall>g' t'. match_name dec f' = Some g' \<and> strptime dec g' = Inr t' \<longrightarrow> t' \<le> ts'"
      by blast
    have "\<forall>f'\<in>set (entry # rest). \<forall>g' t'. match_name dec f' = Some g' \<and> strptime dec g' = Inr t' \<longrightarrow> t' \<le> ts'"
      using all None by (simp del: split_paired_All)
    moreover have "f = f0 \<and> ts' = ts
        \<or> f \<in> set (entry # rest) \<and> (\<exists>g. match_name dec f = Some g \<and> strptime dec g = Inr ts')"
      using f by (simp del: split_paired_Ex) blast
    ultimately show ?thesis using r le by blast
  next
    case (Some g)
    show ?thesis
    proof (cases "strptime dec g")
      case (Inl e)
      with Some Cons.prems show ?thesis by simp
    next
      case (Inr ft)
      show ?thesis
      proof (cases "ft > ts")
        case True
        with Some Inr Cons.prems have "find_latest_loop dec rest (Some ft) (Some entry) = Inr r" by simp
        from Cons.IH[OF this] obtain f ts' where r: "r = Some f"
          and f: "f = entry \<and> ts' = ft \<or> f \<in> set rest \<and> (\<exists>g. match_name dec f = Some g \<and> strptime dec g = Inr ts')"
          and le: "ft \<le> ts'"
          and all: "\<forall>f'\<in>set rest. \<forall>g' t'. match_name dec f' = Some g' \<and> strptime dec g' = Inr t' \<longrightarrow> t' \<le> ts'"
          by blast
        have "ts \<le> ts'" using True le by (rule less_imp_le[THEN order_trans])
        moreover have "f \<in> set (entry # rest) \<and> (\<exists>g. match_name dec f = Some g \<and> strptime dec g = Inr ts')"
          using f Some Inr by (simp del: split_paired_Ex) blast
        moreover have "\<forall>f'\<in>set (entry # rest). \<forall>g' t'. match_name dec f' = Some g' \<and> strptime dec g' = Inr t' \<longrightarrow> t' \<le> ts'"
          using all le Some Inr by (simp del: split_paired_All)
        ultimately show ?thesis using r by blast
      next
        case False
        with Some Inr Cons.prems have "find_latest_loop dec rest (Some ts) (Some f0) = Inr r" by simp
        from Cons.IH[OF this] obtain f ts' where r: "r = Some f"
          and f: "f = f0 \<and> ts' = ts \<or> f \<in> set rest \<and> (\<exists>g. match_name dec f = Some g \<and> strptime dec g = Inr ts')"
          and le: "ts \<le> ts'"
          and all: "\<forall>f'\<in>set rest. \<forall>g' t'. match_name dec f' = Some g' \<and> strptime dec g' = Inr t' \<longrightarrow> t' \<le> ts'"
          by blast
        from False have "ft \<le> ts" by (rule leI)
        then have "ft \<le> ts'" using le by (rule order_trans)
        then have "\<forall>f'\<in>set (entry # rest). \<forall>g' t'. match_name dec f' = Some g' \<and> strptime dec g' = Inr t' \<longrightarrow> t' \<le> ts'"
          using all Some Inr by (simp del: split_paired_All)
        moreover have "f = f0 \<and> ts' = ts
            \<or> f \<in> set (entry # rest) \<and> (\<exists>g. match_name dec f = Some g \<and> strptime dec g = Inr ts')"
          using f by (simp del: split_paired_Ex) blast
        ultimately show ?thesis using r le by blast
      qed
    qed
  qed
qed

lemma loop_from_none:
  "find_latest_loop dec rest None None = Inr r \<Longrightarrow>
   (if \<forall>f\<in>set rest. match_name dec f = None then r = None
    else \<exists>f g ts. r = Some f \<and> f \<in> set rest \<and> match_name dec f = Some g \<and> strptime dec g = Inr ts
       \<and> (\<forall>f'\<in>set rest. \<forall>g' t'. match_name dec f' = Some g' \<and> strptime dec g' = Inr t' \<longrightarrow> t' \<le> ts))"
proof (induction rest)
  case Nil
  then show ?case by simp
next
  case (Cons entry rest)
  show ?case
  proof (cases "match_name dec entry")
    case None
    with Cons.prems have loop: "find_latest_loop dec rest None None = Inr r" by simp
    note ih = Cons.IH[OF loop]
    show ?thesis
    proof (cases "\<forall>f\<in>set rest. match_name dec f = None")
      case True
      with ih None show ?thesis by simp
    next
      case False
      with ih obtain f g ts where r: "r = Some f" and f: "f \<in> set rest" "match_name dec f = Some g"
        "strptime dec g = Inr ts"
        and all: "\<forall>f'\<in>set rest. \<forall>g' t'. match_name dec f' = Some g' \<and> strptime dec g' = Inr t' \<longrightarrow> t' \<le> ts"
        by (simp del: split_paired_All split_paired_Ex) blast
      have all': "\<forall>f'\<in>set (entry # rest). \<forall>g' t'. match_name dec f' = Some g' \<and> strptime dec g' = Inr t' \<longrightarrow> t' \<le> ts"
        using all None by (simp del: split_paired_All)
      have "\<not> (\<forall>f\<in>set (entry # rest). match_name dec f = None)" using False by simp
      moreover have "\<exists>f g ts. r = Some f \<and> f \<in> set (entry # rest) \<and> match_name dec f = Some g
          \<and> strptime dec g = Inr ts
          \<and> (\<forall>f'\<in>set (entry # rest). \<forall>g' t'. match_name dec f' = Some g' \<and> strptime dec g' = Inr t' \<longrightarrow> t' \<le> ts)"
        using r f all' by (intro exI[of _ f] exI[of _ g] exI[of _ ts]) (simp del: split_paired_All)
      ultimately show ?thesis by (simp only: if_False)
    qed
  next
    case (Some g)
    show ?thesis
    proof (cases "strptime dec g")
      case (Inl e)
      with Some Cons.prems show ?thesis by simp
    next
      case (Inr ft)
      with Some Cons.prems have "find_latest_loop dec rest (Some ft) (Some entry) = Inr r" by simp
      from loop_from_some[OF this] obtain f ts' where r: "r = Some f"
        and f: "f = entry \<and> ts' = ft \<or> f \<in> set rest \<and> (\<exists>g. match_name dec f = Some g \<and> strptime dec g = Inr ts')"
        and le: "ft \<le> ts'"
        and all: "\<forall>f'\<in>set rest. \<forall>g' t'. match_name dec f' = Some g' \<and> strptime dec g' = Inr t' \<longrightarrow> t' \<le> ts'"
        by blast
      from f Some Inr obtain g2 where f2: "f \<in> set (entry # rest)" "match_name dec f = Some g2"
        "strptime dec g2 = Inr ts'"
        by (simp del: split_paired_Ex) blast
      have all': "\<forall>f'\<in>set (entry # rest). \<forall>g' t'. match_name dec f' = Some g' \<and> strptime dec g' = Inr t' \<longrightarrow> t' \<le> ts'"
        using all le Some Inr by (simp del: split_paired_All)
      have "\<not> (\<forall>f\<in>set (entry # rest). match_name dec f = None)" using Some by simp
      moreover have "\<exists>f g ts. r = Some f \<and> f \<in> set (entry # rest) \<and> match_name dec f = Some g
          \<and> strptime dec g = Inr ts
          \<and> (\<forall>f'\<in>set (entry # rest). \<forall>g' t'. match_name dec f' = Some g' \<and> strptime dec g' = Inr t' \<longrightarrow> t' \<le> ts)"
        using r f2 all' by (intro exI[of _ f] exI[of _ g2] exI[of _ ts']) (simp del: split_paired_All)
      ultimately show ?thesis by (simp only: if_False)
    qed
  qed
qed

lemma loop_valid_returns:
  "(\<forall>f\<in>set rest. \<forall>g. match_name dec f = Some g \<longrightarrow> (\<exists>ts. strptime dec g = Inr ts)) \<Longrightarrow>
   \<exists>r. find_latest_loop dec rest lt lf = Inr r"
proof (induction rest arbitrary: lt lf)
  case Nil
  then show ?case by simp
next
  case (Cons entry rest)
  then have ih: "\<And>lt lf. \<exists>r. find_latest_loop dec rest lt lf = Inr r"
    by (simp del: split_paired_Ex)
  show ?case
  proof (cases "match_name dec entry")
    case None
    then show ?thesis using ih by simp
  next
    case (Some g)
    with Cons.prems obtain ts where "strptime dec g = Inr ts"
      by (simp del: split_paired_Ex) blast
    with Some show ?thesis using ih by simp
  qed
qed

lemma loop_invalid_raises:
  "f \<in> set rest \<Longrightarrow> match_name dec f = Some g \<Longrightarrow> strptime dec g = Inl e \<Longrightarrow>
   find_latest_loop dec rest lt lf = Inl ValueError"
proof (induction rest arbitrary: lt lf)
  case Nil
  then show ?case by simp
next
  case (Cons entry rest)
  show ?case
  proof (cases "match_name dec entry")
    case None
    with Cons.prems have "f \<in> set rest" by auto
    from Cons.IH[OF this Cons.prems(2,3)] None show ?thesis by simp
  next
    case (Some g')
    show ?thesis
    proof (cases "strptime dec g'")
      case (Inl e')
      with Some strptime_error[OF Inl] show ?thesis by simp
    next
      case (Inr ft)
      with Some Cons.prems have "f \<in> set rest" by auto
      from Cons.IH[OF this Cons.prems(2,3)] Some Inr show ?thesis by simp
    qed
  qed
qed


lemma loop_ignores_unmatched:
  "find_latest_loop dec rest lt lf
   = find_latest_loop dec (filter (\<lambda>f. match_name dec f \<noteq> None) rest) lt lf"
proof (induction rest arbitrary: lt lf)
  case Nil
  then show ?case by simp
next
  case (Cons entry rest)
  show ?case
  proof (cases "match_name dec entry")
    case None
    then show ?thesis using Cons.IH by simp
  next
    case (Some g)
    then show ?thesis using Cons.IH by (simp split: sum.splits)
  qed
qed

lemma length_ustr: "length (ustr s) = length s"
  by (simp add: ustr_def)

lemma match_name_Some_iff:
  "match_name dec f = Some g \<longleftrightarrow>
   (\<exists>rest. f = ustr DEFAULT_MIGRATION_FILE_PREFIX @ g @ rest \<and> list_all2 (fits dec) g stamp_shape)"
proof
  assume m: "match_name dec f = Some g"
  let ?n = "length DEFAULT_MIGRATION_FILE_PREFIX"
  from m have p: "take ?n f = ustr DEFAULT_MIGRATION_FILE_PREFIX"
    and g: "g = take (length stamp_shape) (drop ?n f)" and fit: "list_all2 (fits dec) g stamp_shape"
    by (auto simp: match_name_def Let_def split: if_splits)
  have "take (length stamp_shape) (drop ?n f) @ drop (length stamp_shape) (drop ?n f) = drop ?n f"
    by (rule append_take_drop_id)
  moreover have "take ?n f @ drop ?n f = f" by (rule append_take_drop_id)
  ultimately
  have "f = take ?n f @ take (length stamp_shape) (drop ?n f) @ drop (length stamp_shape) (drop ?n f)"
    by (simp only:)
  with p g have "f = ustr DEFAULT_MIGRATION_FILE_PREFIX @ g @ drop (length stamp_shape) (drop ?n f)"
    by simp
  with fit
  show "\<exists>rest. f = ustr DEFAULT_MIGRATION_FILE_PREFIX @ g @ rest \<and> list_all2 (fits dec) g stamp_shape"
    by blast
next
  assume "\<exists>rest. f = ustr DEFAULT_MIGRATION_FILE_PREFIX @ g @ rest \<and> list_all2 (fits dec) g stamp_shape"
  then obtain rest where f: "f = ustr DEFAULT_MIGRATION_FILE_PREFIX @ g @ rest"
    and fit: "list_all2 (fits dec) g stamp_shape" by blast
  from fit have "length g = length stamp_shape" by (rule list_all2_lengthD)
  with f fit show "match_name dec f = Some g" by (simp add: match_name_def Let_def length_ustr)
qed

text \<open>
  Claim C8, amended. A name matches when it starts with the prefix followed by sixteen
  characters of the shape \<open>dddd-dd-dd-dd-dd\<close>, each \<open>d\<close> a decimal digit; anything may follow.
  Entries that do not match are ignored: discovery on a listing is discovery on its
  matching entries. With no matching entry discovery returns none. When the timestamp
  parser accepts the digits of every matching entry (they are a date and a time of the
  calendar, written as the parser's format requires), discovery returns a matching entry of
  the listing whose timestamp is the greatest. When the parser refuses the digits of some
  matching entry, discovery raises a value error. Given \<open>migration_2023-01-01-10-00\<close>,
  \<open>migration_2023-02-01-09-00\<close> and an unrelated file it returns the February file.
\<close>

theorem find_latest_migration_file_latest:
  "(match_name dec f = Some g \<longleftrightarrow>
      (\<exists>rest. f = ustr DEFAULT_MIGRATION_FILE_PREFIX @ g @ rest
          \<and> list_all2 (fits dec) g stamp_shape))
   \<and> find_latest_migration_file dec listing
     = find_latest_migration_file dec (filter (\<lambda>f. match_name dec f \<noteq> None) listing)
   \<and> ((\<forall>f\<in>set listing. match_name dec f = None) \<longrightarrow> find_latest_migration_file dec listing = Inr None)
   \<and> ((\<forall>f\<in>set listing. \<forall>g. match_name dec f = Some g \<longrightarrow> (\<exists>ts. strptime dec g = Inr ts)) \<longrightarrow>
        (if \<forall>f\<in>set listing. match_name dec f = None
         then find_latest_migration_file dec listing = Inr None
         else \<exists>f g ts. find_latest_migration_file dec listing = Inr (Some f) \<and> f \<in> set listing
                \<and> match_name dec f = Some g \<and> strptime dec g = Inr ts
                \<and> (\<forall>f'\<in>set listing. \<forall>g' t'.
                      match_name dec f' = Some g' \<and> strptime dec g' = Inr t' \<longrightarrow> t' \<le> ts)))
   \<and> ((\<exists>f\<in>set listing. \<exists>g e. match_name dec f = Some g \<and> strptime dec g = Inl e) \<longrightarrow>
        find_latest_migration_file dec listing = Inl ValueError)
   \<and> find_latest_migration_file dec
        [ustr ''migration_2023-01-01-10-00'', ustr ''migration_2023-02-01-09-00'',
         ustr ''notes.txt'']
      = Inr (Some (ustr ''migration_2023-02-01-09-00''))"
proof -
  have none: "find_latest_migration_file dec listing = Inr None"
    if "\<forall>f\<in>set listing. match_name dec f = None"
  proof -
    from that have "\<forall>f\<in>set listing. \<forall>g. match_name dec f = Some g \<longrightarrow> (\<exists>ts. strptime dec g = Inr ts)"
      by simp
    from loop_valid_returns[OF this, of None None] obtain r
      where r: "find_latest_loop dec listing None None = Inr r" by blast
    from loop_from_none[OF r] that have "r = None" by (simp del: split_paired_All split_paired_Ex)
    with r show ?thesis by (simp add: find_latest_migration_file_def)
  qed
  have valid: "if \<forall>f\<in>set listing. match_name dec f = None
         then find_latest_migration_file dec listing = Inr None
         else \<exists>f g ts. find_latest_migration_file dec listing = Inr (Some f) \<and> f \<in> set listing
                \<and> match_name dec f = Some g \<and> strptime dec g = Inr ts
                \<and> (\<forall>f'\<in>set listing. \<forall>g' t'.
                      match_name dec f' = Some g' \<and> strptime dec g' = Inr t' \<longrightarrow> t' \<le> ts)"
    if v: "\<forall>f\<in>set listing. \<forall>g. match_name dec f = Some g \<longrightarrow> (\<exists>ts. strptime dec g = Inr ts)"
  proof (cases "\<forall>f\<in>set listing. match_name dec f = None")
    case True
    from none[OF True] True show ?thesis by (simp del: split_paired_All split_paired_Ex)
  next
    case False
    from loop_valid_returns[OF v, of None None] obtain r
      where r: "find_latest_loop dec listing None None = Inr r" by blast
    from loop_from_none[OF r] False
    have "\<exists>f g ts. r = Some f \<and> f \<in> set listing \<and> match_name dec f = Some g \<and> strptime dec g = Inr ts
       \<and> (\<forall>f'\<in>set listing. \<forall>g' t'. match_name dec f' = Some g' \<and> strptime dec g' = Inr t' \<longrightarrow> t' \<le> ts)"
      by (simp only: if_False)
    then obtain f g ts where "r = Some f" "f \<in> set listing" "match_name dec f = Some g"
      "strptime dec g = Inr ts"
      "\<forall>f'\<in>set listing. \<forall>g' t'. match_name dec f' = Some g' \<and> strptime dec g' = Inr t' \<longrightarrow> t' \<le> ts"
      by blast
    with r have "find_latest_migration_file dec listing = Inr (Some f) \<and> f \<in> set listing
                \<and> match_name dec f = Some g \<and> strptime dec g = Inr ts
                \<and> (\<forall>f'\<in>set listing. \<forall>g' t'.
                      match_name dec f' = Some g' \<and> strptime dec g' = Inr t' \<longrightarrow> t' \<le> ts)"
      by (simp add: find_latest_migration_file_def del: split_paired_All)
    then have "\<exists>f g ts. find_latest_migration_file dec listing = Inr (Some f) \<and> f \<in> set listing
                \<and> match_name dec f = Some g \<and> strptime dec g = Inr ts
                \<and> (\<forall>f'\<in>set listing. \<forall>g' t'.
                      match_name dec f' = Some g' \<and> strptime dec g' = Inr t' \<longrightarrow> t' \<le> ts)"
      by blast
    with False show ?thesis by (simp only: if_False)
  qed
  have invalid: "find_latest_migration_file dec listing = Inl ValueError"
    if "\<exists>f\<in>set listing. \<exists>g e. match_name dec f = Some g \<and> strptime dec g = Inl e"
  proof -
    from that obtain f g e where "f \<in> set listing" "match_name dec f = Some g" "strptime dec g = Inl e"
      by blast
    from loop_invalid_raises[OF this] show ?thesis by (simp add: find_latest_migration_file_def)
  qed
  have example: "find_latest_migration_file dec
        [ustr ''migration_2023-01-01-10-00'', ustr ''migration_2023-02-01-09-00'',
         ustr ''notes.txt'']
      = Inr (Some (ustr ''migration_2023-02-01-09-00''))"
    by code_simp
  show ?thesis
    apply (intro conjI impI)
    subgoal by (rule match_name_Some_iff)
    subgoal unfolding find_latest_migration_file_def by (rule loop_ignores_unmatched)
    subgoal by (rule none)
    subgoal by (rule valid)
    subgoal by (rule invalid)
    subgoal by (rule example)
    done
qed


theorem find_latest_migration_file_latest_witness:
  "(\<exists>f g ts. find_latest_migration_file fullwidth_decimal
        [ustr ''migration_2023-01-01-10-00'', ustr ''migration_2023-02-01-09-00'',
         ustr ''notes.txt'']
        = Inr (Some f)
      \<and> f \<in> set [ustr ''migration_2023-01-01-10-00'', ustr ''migration_2023-02-01-09-00'',
                  ustr ''notes.txt'']
      \<and> match_name fullwidth_decimal f = Some g \<and> strptime fullwidth_decimal g = Inr ts
      \<and> (\<forall>f'\<in>set [ustr ''migration_2023-01-01-10-00'', ustr ''migration_2023-02-01-09-00'',
                      ustr ''notes.txt''].
           \<forall>g' t'. match_name fullwidth_decimal f' = Some g' \<and> strptime fullwidth_decimal g' = Inr t'
             \<longrightarrow> t' \<le> ts))
   \<and> find_latest_migration_file fullwidth_decimal [ustr ''notes.txt'', ustr ''migration_draft'']
     = Inr None
   \<and> find_latest_migration_file fullwidth_decimal [ustr ''migration_2023-13-01-10-00'']
     = Inl ValueError
   \<and> find_latest_migration_file fullwidth_decimal
       [ustr ''migration_2022-01-01-10-00'',
        ustr ''migration_'' @ [65298, 65296, 65298, 65299] @ ustr ''-02-01-09-00'']
     = Inr (Some (ustr ''migration_'' @ [65298, 65296, 65298, 65299] @ ustr ''-02-01-09-00''))"
proof -
  let ?dec = fullwidth_decimal
  have m1: "match_name ?dec (ustr ''migration_2023-01-01-10-00'') = Some (ustr ''2023-01-01-10-00'')"
    by code_simp
  have m2: "match_name ?dec (ustr ''migration_2023-02-01-09-00'') = Some (ustr ''2023-02-01-09-00'')"
    by code_simp
  have m3: "match_name ?dec (ustr ''notes.txt'') = None" by code_simp
  have m4: "match_name ?dec (ustr ''migration_draft'') = None" by code_simp
  have m5: "match_name ?dec (ustr ''migration_2023-13-01-10-00'') = Some (ustr ''2023-13-01-10-00'')"
    by code_simp
  have s1: "strptime ?dec (ustr ''2023-01-01-10-00'') = Inr (2023, 1, 1, 10, 0)" by code_simp
  have s2: "strptime ?dec (ustr ''2023-02-01-09-00'') = Inr (2023, 2, 1, 9, 0)" by code_simp
  have s5: "strptime ?dec (ustr ''2023-13-01-10-00'') = Inl ValueError" by code_simp
  note thm1 = find_latest_migration_file_latest[where dec = ?dec and
      listing = "[ustr ''migration_2023-01-01-10-00'', ustr ''migration_2023-02-01-09-00'',
                  ustr ''notes.txt'']"]
  note thm2 = find_latest_migration_file_latest[where dec = ?dec and
      listing = "[ustr ''notes.txt'', ustr ''migration_draft'']"]
  note thm3 = find_latest_migration_file_latest[where dec = ?dec and
      listing = "[ustr ''migration_2023-13-01-10-00'']"]
  have a: "\<exists>f g ts. find_latest_migration_file ?dec
        [ustr ''migration_2023-01-01-10-00'', ustr ''migration_2023-02-01-09-00'',
         ustr ''notes.txt'']
        = Inr (Some f)
      \<and> f \<in> set [ustr ''migration_2023-01-01-10-00'', ustr ''migration_2023-02-01-09-00'',
                  ustr ''notes.txt'']
      \<and> match_name ?dec f = Some g \<and> strptime ?dec g = Inr ts
      \<and> (\<forall>f'\<in>set [ustr ''migration_2023-01-01-10-00'', ustr ''migration_2023-02-01-09-00'',
                      ustr ''notes.txt''].
           \<forall>g' t'. match_name ?dec f' = Some g' \<and> strptime ?dec g' = Inr t' \<longrightarrow> t' \<le> ts)"
    using thm1[THEN conjunct2, THEN conjunct2, THEN conjunct2, THEN conjunct1] m1 m2 m3 s1 s2
    by (simp del: split_paired_All split_paired_Ex)
  have b: "find_latest_migration_file ?dec [ustr ''notes.txt'', ustr ''migration_draft''] = Inr None"
    using thm2[THEN conjunct2, THEN conjunct2, THEN conjunct1] m3 m4 by simp
  have c: "find_latest_migration_file ?dec [ustr ''migration_2023-13-01-10-00''] = Inl ValueError"
    using thm3[THEN conjunct2, THEN conjunct2, THEN conjunct2, THEN conjunct2, THEN conjunct1] m5 s5
    by (simp del: split_paired_Ex)
  have d: "find_latest_migration_file ?dec
       [ustr ''migration_2022-01-01-10-00'',
        ustr ''migration_'' @ [65298, 65296, 65298, 65299] @ ustr ''-02-01-09-00'']
     = Inr (Some (ustr ''migration_'' @ [65298, 65296, 65298, 65299] @ ustr ''-02-01-09-00''))"
  proof -
    have mA: "match_name ?dec (ustr ''migration_2022-01-01-10-00'') = Some (ustr ''2022-01-01-10-00'')"
      by code_simp
    have sA: "strptime ?dec (ustr ''2022-01-01-10-00'') = Inr (2022, 1, 1, 10, 0)" by code_simp
    have mB: "match_name ?dec (ustr ''migration_'' @ [65298, 65296, 65298, 65299] @ ustr ''-02-01-09-00'')
      = Some ([65298, 65296, 65298, 65299] @ ustr ''-02-01-09-00'')"
      by (simp add: match_name_def DEFAULT_MIGRATION_FILE_PREFIX_def stamp_shape_def fits_def
          is_digit_def digit_value_def fullwidth_decimal_def ustr_def)
    have sB: "strptime ?dec ([65298, 65296, 65298, 65299] @ ustr ''-02-01-09-00'')
      = Inr (2023, 2, 1, 9, 0)"
      by (simp add: strptime_def stamp_shape_def fits_def is_digit_def digit_value_def
          fullwidth_decimal_def ustr_def num_def month_field_def day_field_def hour_field_def
          minute_field_def in_class_def days_in_month_def is_leap_def)
    show ?thesis
      using mA sA mB sB by (simp add: find_latest_migration_file_def)
  qed
  from a b c d show ?thesis by (intro conjI)
qed

text \<open>
  Claim C8, as stated, fails: an entry that matches the digit pattern but names the 30th of
  February is not ignored, and no entry is returned; discovery raises a value error.
\<close>

theorem find_latest_raises_on_impossible_date:
  "find_latest_migration_file fullwidth_decimal
     [ustr ''migration_2023-01-01-10-00'', ustr ''migration_2023-02-30-09-00'', ustr ''notes.txt'']
   = Inl ValueError"
  by code_simp
section \<open>Confirmation and application\<close>

declare apply_migrations.simps [simp del]

lemma find_latest_Some:
  assumes "find_latest_migration_file dec listing = Inr (Some f)"
  shows "f \<in> set listing \<and> f \<noteq> []"
proof -
  from assms have r: "find_latest_loop dec listing None None = Inr (Some f)"
    by (simp add: find_latest_migration_file_def)
  have "\<not> (\<forall>x\<in>set listing. match_name dec x = None)"
  proof
    assume "\<forall>x\<in>set listing. match_name dec x = None"
    with loop_from_none[OF r] show False by (simp del: split_paired_All split_paired_Ex)
  qed
  with loop_from_none[OF r] obtain g where "f \<in> set listing" "match_name dec f = Some g"
    by (simp del: split_paired_All split_paired_Ex) blast
  moreover from this(2) have "f \<noteq> []"
    by (auto simp: match_name_Some_iff DEFAULT_MIGRATION_FILE_PREFIX_def ustr_def)
  ultimately show ?thesis by simp
qed

lemma map_of_listed: "f \<in> set (map fst dir) \<Longrightarrow> \<exists>content. map_of dir f = Some content"
  by (induction dir) auto

lemma execute_all_log:
  "fst (execute_all rej script log)
     = log @ takeWhile (\<lambda>s. \<not> rej s) (filter (\<lambda>s. s \<noteq> []) script)"
  by (induction script arbitrary: log) auto

lemma compare_schemas_executed: "executed (fst (compare_schemas ev st)) = executed st"
  by (auto simp: compare_schemas_def create_migration_file_def Let_def split: option.splits sum.splits)

lemma apply_migrations_extends:
  "prefix (executed st) (executed (fst (apply_migrations ev nm answers st)))"
proof (induction ev nm answers st rule: apply_migrations.induct)
  case (1 ev next_message answers st)
  show ?case
  proof (cases "find_latest_migration_file (unicode_decimal ev) (map fst (files st))")
    case (Inl e)
    then show ?thesis by (subst apply_migrations.simps) simp
  next
    case (Inr found)
    show ?thesis
    proof (cases found)
      case None
      with Inr show ?thesis by (subst apply_migrations.simps) simp
    next
      case (Some last_migration)
      show ?thesis
      proof (cases "last_migration = []")
        case True
        with Inr Some show ?thesis by (subst apply_migrations.simps) simp
      next
        case nonempty: False
        define st1 where "st1 = st\<lparr>printed := printed st @
                          (if next_message then [Separator, NextPrompt last_migration]
                           else [Prompt last_migration])\<rparr>"
        have ex1: "executed st1 = executed st" by (simp add: st1_def)
        show ?thesis
        proof (cases answers)
          case Nil
          with Inr Some nonempty show ?thesis by (subst apply_migrations.simps) simp
        next
          case (Cons answer later)
          show ?thesis
          proof (cases "affirmative ev answer")
            case False
            with Inr Some nonempty Cons show ?thesis by (subst apply_migrations.simps) simp
          next
            case yes: True
            show ?thesis
            proof (cases "read_migration (files st1) last_migration")
              case (Inl e)
              with Inr Some nonempty Cons yes show ?thesis
                by (subst apply_migrations.simps) (simp add: st1_def)
            next
              case script: (Inr migration_script)
              obtain log res where ex: "execute_all (rejects ev) migration_script (executed st1) = (log, res)"
                by (cases "execute_all (rejects ev) migration_script (executed st1)")
              have log: "prefix (executed st) log"
                using execute_all_log[of "rejects ev" migration_script "executed st1"] ex ex1 by simp
              show ?thesis
              proof (cases res)
                case (Inl e)
                with Inr Some nonempty Cons yes script ex log show ?thesis
                  by (subst apply_migrations.simps) (simp add: st1_def)
              next
                case ok: (Inr u)
                obtain st2 res2 where cs: "compare_schemas ev (st1\<lparr>executed := log\<rparr>) = (st2, res2)"
                  by (cases "compare_schemas ev (st1\<lparr>executed := log\<rparr>)")
                have st2: "executed st2 = log"
                  using compare_schemas_executed[of ev "st1\<lparr>executed := log\<rparr>"] cs by simp
                show ?thesis
                proof (cases res2)
                  case (Inl e)
                  with Inr Some nonempty Cons yes script ex ok cs st2 log show ?thesis
                    by (subst apply_migrations.simps) (simp add: st1_def)
                next
                  case second: (Inr second_run)
                  show ?thesis
                  proof (cases second_run)
                    case False
                    with Inr Some nonempty Cons yes script ex ok cs st2 log second show ?thesis
                      by (subst apply_migrations.simps) (simp add: st1_def)
                  next
                    case True
                    have "prefix (executed st2) (executed (fst (apply_migrations ev True later st2)))"
                      using "1.IH"[OF Inr Some nonempty st1_def Cons yes script ex[symmetric] ok
                          cs[symmetric] second True] .
                    with st2 log
                    have "prefix (executed st) (executed (fst (apply_migrations ev True later st2)))"
                      by (metis prefix_order.trans)
                    with Inr Some nonempty Cons yes script ex ok cs second True show ?thesis
                      by (subst apply_migrations.simps) (simp add: st1_def)
                  qed
                qed
              qed
            qed
          qed
        qed
      qed
    qed
  qed
qed

lemma apply_declined:
  assumes no: "\<not> affirmative ev answer"
  shows "apply_migrations ev nm (answer # later) st
     = (case find_latest_migration_file (unicode_decimal ev) (map fst (files st)) of
          Inl e \<Rightarrow> (st, Inl e)
        | Inr None \<Rightarrow> (st\<lparr>printed := printed st @ [NothingApplied]\<rparr>, Inr ())
        | Inr (Some f) \<Rightarrow>
            (st\<lparr>printed := printed st
                   @ (if nm then [Separator, NextPrompt f] else [Prompt f]) @ [NothingApplied]\<rparr>,
             Inr ()))"
proof (cases "find_latest_migration_file (unicode_decimal ev) (map fst (files st))")
  case (Inl e)
  then show ?thesis by (subst apply_migrations.simps) simp
next
  case (Inr found)
  show ?thesis
  proof (cases found)
    case None
    with Inr show ?thesis by (subst apply_migrations.simps) simp
  next
    case (Some f)
    with Inr find_latest_Some[of "unicode_decimal ev" "map fst (files st)" f] have "f \<noteq> []" by simp
    with Inr Some no show ?thesis by (subst apply_migrations.simps) simp
  qed
qed

lemma apply_affirmed:
  assumes yes: "affirmative ev answer"
    and latest: "find_latest_migration_file (unicode_decimal ev) (map fst (files st)) = Inr (Some f)"
  shows "\<exists>content. map_of (files st) f = Some content
     \<and> prefix (executed st @ takeWhile (\<lambda>s. \<not> rejects ev s)
                 (filter (\<lambda>s. s \<noteq> []) (map (filter (\<lambda>c. c \<noteq> CHR 0x0A)) (readlines (universal_newlines content) []))))
         (executed (fst (apply_migrations ev nm (answer # later) st)))"
proof -
  from find_latest_Some[OF latest] have listed: "f \<in> set (map fst (files st))" and ne: "f \<noteq> []"
    by simp_all
  from map_of_listed[OF listed] obtain content where content: "map_of (files st) f = Some content"
    by blast
  define script where "script = map (filter (\<lambda>c. c \<noteq> CHR 0x0A)) (readlines (universal_newlines content) [])"
  define st1 where "st1 = st\<lparr>printed := printed st @
                          (if nm then [Separator, NextPrompt f] else [Prompt f])\<rparr>"
  have rd: "read_migration (files st1) f = Inr script"
    using content by (simp add: read_migration_def script_def st1_def)
  obtain log res where ex: "execute_all (rejects ev) script (executed st1) = (log, res)"
    by (cases "execute_all (rejects ev) script (executed st1)")
  have log: "log = executed st @ takeWhile (\<lambda>s. \<not> rejects ev s) (filter (\<lambda>s. s \<noteq> []) script)"
    using execute_all_log[of "rejects ev" script "executed st1"] ex by (simp add: st1_def)
  have "prefix log (executed (fst (apply_migrations ev nm (answer # later) st)))"
  proof (cases res)
    case (Inl e)
    with latest ne yes rd ex show ?thesis
      by (subst apply_migrations.simps) (simp add: st1_def)
  next
    case ok: (Inr u)
    obtain st2 res2 where cs: "compare_schemas ev (st1\<lparr>executed := log\<rparr>) = (st2, res2)"
      by (cases "compare_schemas ev (st1\<lparr>executed := log\<rparr>)")
    have st2: "executed st2 = log"
      using compare_schemas_executed[of ev "st1\<lparr>executed := log\<rparr>"] cs by simp
    show ?thesis
    proof (cases res2)
      case (Inl e)
      with latest ne yes rd ex ok cs st2 show ?thesis
        by (subst apply_migrations.simps) (simp add: st1_def)
    next
      case second: (Inr second_run)
      show ?thesis
      proof (cases second_run)
        case False
        with latest ne yes rd ex ok cs st2 second show ?thesis
          by (subst apply_migrations.simps) (simp add: st1_def)
      next
        case True
        have "prefix log (executed (fst (apply_migrations ev True later st2)))"
          using apply_migrations_extends[of st2 ev True later] st2 by simp
        with latest ne yes rd ex ok cs second True show ?thesis
          by (subst apply_migrations.simps) (simp add: st1_def)
      qed
    qed
  qed
  with log content show ?thesis unfolding script_def by blast
qed

text \<open>
  Claim C9. An answer is affirmative when its lower-case form is \<open>y\<close> (code point 121) or
  the Cyrillic \<open>de\<close> (code point 1076). After any other answer no statement of the artifact
  is executed, no file changes, no further answer is read, and the cycle ends with the
  report that nothing was applied. After an affirmative answer the non-empty lines of the
  latest artifact are sent to the target database in file order, each after the one before
  it, up to the first one the database rejects: all of them when none is rejected.
\<close>

theorem confirmation_gates_execution:
  "(affirmative ev answer \<longleftrightarrow> lower ev answer = [121] \<or> lower ev answer = [1076])
   \<and> (\<not> affirmative ev answer \<longrightarrow>
        executed (fst (apply_migrations ev nm (answer # later) st)) = executed st
        \<and> files (fst (apply_migrations ev nm (answer # later) st)) = files st
        \<and> apply_migrations ev nm (answer # later) st = apply_migrations ev nm [answer] st
        \<and> (find_latest_migration_file (unicode_decimal ev) (map fst (files st)) = Inr (Some f) \<longrightarrow>
             apply_migrations ev nm (answer # later) st
             = (st\<lparr>printed := printed st
                     @ (if nm then [Separator, NextPrompt f] else [Prompt f]) @ [NothingApplied]\<rparr>,
                Inr ())))
   \<and> (affirmative ev answer \<and> find_latest_migration_file (unicode_decimal ev) (map fst (files st)) = Inr (Some f) \<longrightarrow>
        (\<exists>content. map_of (files st) f = Some content
           \<and> prefix (executed st @ takeWhile (\<lambda>s. \<not> rejects ev s)
                       (filter (\<lambda>s. s \<noteq> [])
                          (map (filter (\<lambda>c. c \<noteq> CHR 0x0A)) (readlines (universal_newlines content) []))))
               (executed (fst (apply_migrations ev nm (answer # later) st)))))"
proof -
  have a: "affirmative ev answer \<longleftrightarrow> lower ev answer = [121] \<or> lower ev answer = [1076]"
    by (auto simp: affirmative_def)
  have d1: "executed (fst (apply_migrations ev nm (answer # later) st)) = executed st"
    if "\<not> affirmative ev answer"
    by (simp add: apply_declined[OF that] split: sum.splits option.splits)
  have d2: "files (fst (apply_migrations ev nm (answer # later) st)) = files st"
    if "\<not> affirmative ev answer"
    by (simp add: apply_declined[OF that] split: sum.splits option.splits)
  have d3: "apply_migrations ev nm (answer # later) st = apply_migrations ev nm [answer] st"
    if "\<not> affirmative ev answer"
    by (simp add: apply_declined[OF that])
  have d4: "apply_migrations ev nm (answer # later) st
             = (st\<lparr>printed := printed st
                     @ (if nm then [Separator, NextPrompt f] else [Prompt f]) @ [NothingApplied]\<rparr>,
                Inr ())"
    if "\<not> affirmative ev answer" "find_latest_migration_file (unicode_decimal ev) (map fst (files st)) = Inr (Some f)"
    using that(2) by (simp add: apply_declined[OF that(1)])
  show ?thesis
    apply (intro conjI impI)
    subgoal by (rule a)
    subgoal by (rule d1)
    subgoal by (rule d2)
    subgoal by (rule d3)
    subgoal by (rule d4)
    subgoal by (elim conjE) (rule apply_affirmed)
    done
qed

theorem confirmation_gates_execution_witness:
  "\<not> affirmative
       \<lparr>right_db_name = ''prod'', describe = (\<lambda>table. []), compare = (\<lambda>log. None),
         now = (\<lambda>tick. ''2024-01-01-00-00''), lower = lower_basic, rejects = (\<lambda>s. False),
         unicode_decimal = fullwidth_decimal\<rparr> [110]
   \<and> executed (fst (apply_migrations
       \<lparr>right_db_name = ''prod'', describe = (\<lambda>table. []), compare = (\<lambda>log. None),
         now = (\<lambda>tick. ''2024-01-01-00-00''), lower = lower_basic, rejects = (\<lambda>s. False),
         unicode_decimal = fullwidth_decimal\<rparr>
       False [[110], [89]]
       \<lparr>files = [(ustr ''migration_2023-02-01-09-00'',
                   ''DROP table prod.old;\<newline>\<newline>DROP table prod.older;\<newline>''),
                  (ustr ''notes.txt'', ''x'')],
         executed = [], printed = [], ticks = 0\<rparr>)) = []
   \<and> affirmative
       \<lparr>right_db_name = ''prod'', describe = (\<lambda>table. []), compare = (\<lambda>log. None),
         now = (\<lambda>tick. ''2024-01-01-00-00''), lower = lower_basic, rejects = (\<lambda>s. False),
         unicode_decimal = fullwidth_decimal\<rparr> [1044]
   \<and> prefix [''DROP table prod.old;'', ''DROP table prod.older;'']
       (executed (fst (apply_migrations
         \<lparr>right_db_name = ''prod'', describe = (\<lambda>table. []), compare = (\<lambda>log. None),
           now = (\<lambda>tick. ''2024-01-01-00-00''), lower = lower_basic, rejects = (\<lambda>s. False),
         unicode_decimal = fullwidth_decimal\<rparr>
         False [[1044]]
         \<lparr>files = [(ustr ''migration_2023-02-01-09-00'',
                     ''DROP table prod.old;\<newline>\<newline>DROP table prod.older;\<newline>''),
                    (ustr ''notes.txt'', ''x'')],
           executed = [], printed = [], ticks = 0\<rparr>)))"
  (is "\<not> affirmative ?ev [110] \<and> executed (fst (apply_migrations ?ev False [[110], [89]] ?st)) = []
       \<and> affirmative ?ev [1044] \<and> prefix ?stmts (executed (fst (apply_migrations ?ev False [[1044]] ?st)))")
proof -
  have no: "\<not> affirmative ?ev [110]" by (simp add: affirmative_def lower_basic_def)
  have yes: "affirmative ?ev [1044]" by (simp add: affirmative_def lower_basic_def)
  have latest: "find_latest_migration_file (unicode_decimal ?ev) (map fst (files ?st))
      = Inr (Some (ustr ''migration_2023-02-01-09-00''))"
    by code_simp
  have lines: "takeWhile (\<lambda>s. \<not> rejects ?ev s)
       (filter (\<lambda>s. s \<noteq> [])
          (map (filter (\<lambda>c. c \<noteq> CHR 0x0A))
             (readlines (universal_newlines
                ''DROP table prod.old;\<newline>\<newline>DROP table prod.older;\<newline>'') []))) = ?stmts"
    by simp
  have declined: "executed (fst (apply_migrations ?ev False [[110], [89]] ?st)) = []"
    using confirmation_gates_execution[of ?ev "[110]" False "[[89]]" ?st, THEN conjunct2,
        THEN conjunct1, THEN mp, OF no, THEN conjunct1]
    by simp
  from confirmation_gates_execution[of ?ev "[1044]" False "[]" ?st "ustr ''migration_2023-02-01-09-00''",
      THEN conjunct2, THEN conjunct2] yes latest
  obtain content where c: "map_of (files ?st) (ustr ''migration_2023-02-01-09-00'') = Some content"
    and p: "prefix (executed ?st @ takeWhile (\<lambda>s. \<not> rejects ?ev s)
                       (filter (\<lambda>s. s \<noteq> [])
                          (map (filter (\<lambda>c. c \<noteq> CHR 0x0A)) (readlines (universal_newlines content) []))))
               (executed (fst (apply_migrations ?ev False [[1044]] ?st)))"
    by blast
  from c have "content = ''DROP table prod.old;\<newline>\<newline>DROP table prod.older;\<newline>''" by simp
  with p lines have "prefix ?stmts (executed (fst (apply_migrations ?ev False [[1044]] ?st)))"
    by simp
  with no yes declined show ?thesis by (intro conjI)
qed

section \<open>A difference model without changes\<close>

lemma process_schema_change_no_tables:
  "get_list (left_only tbls) = [] \<Longrightarrow> get_list (right_only tbls) = [] \<Longrightarrow>
   process_schema_change db dsc tbls = []"
  by (simp add: process_schema_change_def)

text \<open>
  Claim C2, amended. When the comparator reports a match, \<open>compare_schemas\<close> writes no
  artifact, reports that the databases are identical and asks for no second run, so the run
  ends there. When the comparator returns a difference model with no table in
  \<open>tables.left_only\<close>, none in \<open>tables.right_only\<close> and an empty \<open>tables_data\<close>, the compiled
  output is empty; an artifact with empty content is written all the same, and the report is
  the list of created migrations, not that the databases are identical. A second run is
  asked for exactly when the \<open>tables\<close> dict holds a key (an empty list under \<open>left_only\<close>,
  say): then the run goes on to the applier, otherwise it ends.
\<close>

theorem compare_schemas_no_changes:
  "(compare ev (executed st) = None \<longrightarrow>
      compare_schemas ev st = (st\<lparr>printed := printed st @ [Identical]\<rparr>, Inr False)
      \<and> files (fst (compare_schemas ev st)) = files st
      \<and> main_run ev answers st = (st\<lparr>printed := printed st @ [Identical]\<rparr>, Inr ()))
   \<and> (compare ev (executed st) = Some d
       \<and> get_list (left_only (tables d)) = [] \<and> get_list (right_only (tables d)) = []
       \<and> tables_data d = [] \<longrightarrow>
      compare_schemas ev st
        = (st\<lparr>printed := printed st @ [Created []],
               files := write_file (files st)
                             (ustr (DEFAULT_MIGRATION_FILE_PREFIX @ now ev (ticks st))) [],
               ticks := Suc (ticks st)\<rparr>, Inr (facet_truthy (tables d)))
      \<and> main_run ev answers st
        = (if facet_truthy (tables d)
           then apply_migrations ev False answers
                  (st\<lparr>printed := printed st @ [Created []],
                       files := write_file (files st)
                                     (ustr (DEFAULT_MIGRATION_FILE_PREFIX @ now ev (ticks st))) [],
                       ticks := Suc (ticks st)\<rparr>)
           else (st\<lparr>printed := printed st @ [Created []],
                     files := write_file (files st)
                                     (ustr (DEFAULT_MIGRATION_FILE_PREFIX @ now ev (ticks st))) [],
                     ticks := Suc (ticks st)\<rparr>, Inr ())))"
  by (simp add: compare_schemas_def main_run_def create_migration_file_def Let_def
      process_schema_change_no_tables)

text \<open>
  Claim C2, as stated, fails: for a difference model with both facets empty an artifact is
  written and the databases are not reported as identical.
\<close>

theorem compare_schemas_writes_empty_artifact:
  "compare_schemas
     \<lparr>right_db_name = ''prod'', describe = (\<lambda>table. []),
       compare = (\<lambda>log. Some \<lparr>tables = empty_facet, tables_data = []\<rparr>),
       now = (\<lambda>tick. ''2024-01-01-00-00''), lower = lower_basic, rejects = (\<lambda>s. False),
       unicode_decimal = fullwidth_decimal\<rparr>
     \<lparr>files = [], executed = [], printed = [], ticks = 0\<rparr>
   = (\<lparr>files = [(ustr ''migration_2024-01-01-00-00'', [])], executed = [], printed = [Created []],
       ticks = Suc 0\<rparr>, Inr False)"
  by (simp add: compare_schemas_def create_migration_file_def Let_def facet_truthy_def
      empty_facet_def DEFAULT_MIGRATION_FILE_PREFIX_def)

theorem compare_schemas_no_changes_witness:
  "compare_schemas
     \<lparr>right_db_name = ''prod'', describe = (\<lambda>table. []), compare = (\<lambda>log. None),
       now = (\<lambda>tick. ''2024-01-01-00-00''), lower = lower_basic, rejects = (\<lambda>s. False),
       unicode_decimal = fullwidth_decimal\<rparr>
     \<lparr>files = [], executed = [], printed = [], ticks = 0\<rparr>
   = (\<lparr>files = [], executed = [], printed = [Identical], ticks = 0\<rparr>, Inr False)
   \<and> main_run
     \<lparr>right_db_name = ''prod'', describe = (\<lambda>table. []),
       compare = (\<lambda>log. Some \<lparr>tables = empty_facet, tables_data = []\<rparr>),
       now = (\<lambda>tick. ''2024-01-01-00-00''), lower = lower_basic, rejects = (\<lambda>s. False),
       unicode_decimal = fullwidth_decimal\<rparr>
     [[121]]
     \<lparr>files = [], executed = [], printed = [], ticks = 0\<rparr>
   = (\<lparr>files = [(ustr ''migration_2024-01-01-00-00'', [])], executed = [], printed = [Created []],
       ticks = Suc 0\<rparr>, Inr ())
   \<and> compare_schemas
     \<lparr>right_db_name = ''prod'', describe = (\<lambda>table. []),
       compare = (\<lambda>log. Some \<lparr>tables = \<lparr>left_only = Some [], right_only = Some [], diff = None\<rparr>,
                                tables_data = []\<rparr>),
       now = (\<lambda>tick. ''2024-01-01-00-00''), lower = lower_basic, rejects = (\<lambda>s. False),
       unicode_decimal = fullwidth_decimal\<rparr>
     \<lparr>files = [], executed = [], printed = [], ticks = 0\<rparr>
   = (\<lparr>files = [(ustr ''migration_2024-01-01-00-00'', [])], executed = [], printed = [Created []],
       ticks = Suc 0\<rparr>, Inr True)
   \<and> main_run
     \<lparr>right_db_name = ''prod'', describe = (\<lambda>table. []),
       compare = (\<lambda>log. Some \<lparr>tables = \<lparr>left_only = Some [], right_only = Some [], diff = None\<rparr>,
                                tables_data = []\<rparr>),
       now = (\<lambda>tick. ''2024-01-01-00-00''), lower = lower_basic, rejects = (\<lambda>s. False),
       unicode_decimal = fullwidth_decimal\<rparr>
     [[110]]
     \<lparr>files = [], executed = [], printed = [], ticks = 0\<rparr>
   = (\<lparr>files = [(ustr ''migration_2024-01-01-00-00'', [])], executed = [],
       printed = [Created [], Prompt (ustr ''migration_2024-01-01-00-00''), NothingApplied],
       ticks = Suc 0\<rparr>, Inr ())"
  (is "?A \<and> ?B \<and> ?C \<and> ?D")
proof -
  let ?st = "\<lparr>files = [], executed = [], printed = [], ticks = 0\<rparr>"
  have a: ?A
    using compare_schemas_no_changes[of
      "\<lparr>right_db_name = ''prod'', describe = (\<lambda>table. []), compare = (\<lambda>log. None),
        now = (\<lambda>tick. ''2024-01-01-00-00''), lower = lower_basic, rejects = (\<lambda>s. False),
        unicode_decimal = fullwidth_decimal\<rparr>" ?st "[]"]
    by simp
  have b: ?B
    using compare_schemas_no_changes[of
      "\<lparr>right_db_name = ''prod'', describe = (\<lambda>table. []),
        compare = (\<lambda>log. Some \<lparr>tables = empty_facet, tables_data = []\<rparr>),
        now = (\<lambda>tick. ''2024-01-01-00-00''), lower = lower_basic, rejects = (\<lambda>s. False),
        unicode_decimal = fullwidth_decimal\<rparr>" ?st "[[121]]"
      "\<lparr>tables = empty_facet, tables_data = []\<rparr>"]
    by (simp add: facet_truthy_def empty_facet_def DEFAULT_MIGRATION_FILE_PREFIX_def)
  let ?ev = "\<lparr>right_db_name = ''prod'', describe = (\<lambda>table. []),
       compare = (\<lambda>log. Some \<lparr>tables = \<lparr>left_only = Some [], right_only = Some [], diff = None\<rparr>,
                                tables_data = []\<rparr>),
       now = (\<lambda>tick. ''2024-01-01-00-00''), lower = lower_basic, rejects = (\<lambda>s. False),
       unicode_decimal = fullwidth_decimal\<rparr>"
  note inst = compare_schemas_no_changes[of ?ev ?st "[[110]]"
      "\<lparr>tables = \<lparr>left_only = Some [], right_only = Some [], diff = None\<rparr>, tables_data = []\<rparr>"]
  have c: ?C
    using inst by (simp add: facet_truthy_def DEFAULT_MIGRATION_FILE_PREFIX_def)
  have run: "apply_migrations ?ev False [[110]]
       \<lparr>files = [(ustr ''migration_2024-01-01-00-00'', [])], executed = [], printed = [Created []],
         ticks = Suc 0\<rparr>
     = (\<lparr>files = [(ustr ''migration_2024-01-01-00-00'', [])], executed = [],
         printed = [Created [], Prompt (ustr ''migration_2024-01-01-00-00''), NothingApplied],
         ticks = Suc 0\<rparr>, Inr ())"
    by code_simp
  have d: ?D
    using inst run by (simp add: facet_truthy_def DEFAULT_MIGRATION_FILE_PREFIX_def)
  from a b c d show ?thesis by (intro conjI)
qed

end
